theory Spec2Isabelle
  imports Complex_Main "HOL-Library.Sublist"
begin

section \<open>Hybrid search over the apartment catalogue\<close>

text \<open>
  A shallow embedding of \<^verbatim>\<open>src/lib/search.ts\<close> (\<^verbatim>\<open>parseParams\<close>, \<^verbatim>\<open>fetchFromDb\<close>,
  \<^verbatim>\<open>isApartmentMetadata\<close>, \<^verbatim>\<open>fetchSemanticFallback\<close>, \<^verbatim>\<open>buildHref\<close>) and of the
  page component \<^verbatim>\<open>Home\<close> that calls them.

  Conventions of the embedding:
  \<^item> A JavaScript string is carried as the bytes of its UTF-8 encoding (\<open>string\<close>, a list
    of 8-bit \<open>char\<close>s). Emptiness, equality, concatenation, the ASCII digits and the
    percent-encoding of a query string read the same on both sides; the white space that
    \<^verbatim>\<open>trim\<close> and \<^verbatim>\<open>\s\<close> recognise is listed with its multi-byte members.
  \<^item> A JavaScript number that holds a page or a count is the natural number it denotes:
    \<^verbatim>\<open>parseInt\<close> returns the exact value of the digits and \<^verbatim>\<open>String\<close> prints the digits of
    the integer, as JavaScript does up to \<open>2\<^sup>5\<^sup>3\<close>. A relevance score is the real number
    that a finite double denotes, and the arithmetic on scores is that of IEEE 754
    binary64: every operation is rounded to the nearest double, ties to even.
  \<^item> The relational store and the vector index are collaborators. The store is a table
    in scan order with the text-search predicate as a parameter; the index is a function
    from a request to the candidates it returns. A collaborator call that fails rejects
    the whole request before a page exists; the model describes the requests whose
    calls return.
\<close>

subsection \<open>Platform strings\<close>

text \<open>
  The characters that ECMAScript's \<^verbatim>\<open>String.prototype.trim\<close> strips and that \<^verbatim>\<open>\s\<close>
  matches (WhiteSpace and LineTerminator), each as its UTF-8 byte sequence:
  U+0009..U+000D, U+0020, U+00A0, U+1680, U+2000..U+200A, U+2028, U+2029, U+202F,
  U+205F, U+3000, U+FEFF.
\<close>

definition white_space :: "string list" where
  "white_space =
    [[CHR 0x09], [CHR 0x0A], [CHR 0x0B], [CHR 0x0C], [CHR 0x0D], [CHR 0x20],
     [CHR 0xC2, CHR 0xA0],
     [CHR 0xE1, CHR 0x9A, CHR 0x80],
     [CHR 0xE2, CHR 0x80, CHR 0x80], [CHR 0xE2, CHR 0x80, CHR 0x81],
     [CHR 0xE2, CHR 0x80, CHR 0x82], [CHR 0xE2, CHR 0x80, CHR 0x83],
     [CHR 0xE2, CHR 0x80, CHR 0x84], [CHR 0xE2, CHR 0x80, CHR 0x85],
     [CHR 0xE2, CHR 0x80, CHR 0x86], [CHR 0xE2, CHR 0x80, CHR 0x87],
     [CHR 0xE2, CHR 0x80, CHR 0x88], [CHR 0xE2, CHR 0x80, CHR 0x89],
     [CHR 0xE2, CHR 0x80, CHR 0x8A],
     [CHR 0xE2, CHR 0x80, CHR 0xA8], [CHR 0xE2, CHR 0x80, CHR 0xA9],
     [CHR 0xE2, CHR 0x80, CHR 0xAF],
     [CHR 0xE2, CHR 0x81, CHR 0x9F],
     [CHR 0xE3, CHR 0x80, CHR 0x80],
     [CHR 0xEF, CHR 0xBB, CHR 0xBF]]"

text \<open>The number of bytes of the white-space character a string starts with (0 if none).\<close>

definition leading_ws :: "string \<Rightarrow> nat" where
  "leading_ws s = (case filter (\<lambda>w. prefix w s) white_space of [] \<Rightarrow> 0 | w # _ \<Rightarrow> length w)"

text \<open>The number of bytes of the white-space character a string ends with (0 if none).\<close>

definition trailing_ws :: "string \<Rightarrow> nat" where
  "trailing_ws s = (case filter (\<lambda>w. suffix w s) white_space of [] \<Rightarrow> 0 | w # _ \<Rightarrow> length w)"

function trimStart :: "string \<Rightarrow> string" where
  "trimStart s = (if leading_ws s = 0 then s else trimStart (drop (leading_ws s) s))"
  by pat_completeness auto
termination
proof (relation "measure length")
  show "wf (measure length)" by simp
next
  fix s :: string
  assume "leading_ws s \<noteq> 0"
  moreover have "leading_ws s \<le> length s"
  proof (cases "filter (\<lambda>w. prefix w s) white_space")
    case Nil
    then show ?thesis by (simp add: leading_ws_def)
  next
    case (Cons w ws)
    then have "w \<in> set (filter (\<lambda>w. prefix w s) white_space)" by simp
    then have "prefix w s" by simp
    then have "length w \<le> length s" by (rule prefix_length_le)
    with Cons show ?thesis by (simp add: leading_ws_def)
  qed
  ultimately show "(drop (leading_ws s) s, s) \<in> measure length" by simp
qed

function trimEnd :: "string \<Rightarrow> string" where
  "trimEnd s = (if trailing_ws s = 0 then s else trimEnd (take (length s - trailing_ws s) s))"
  by pat_completeness auto
termination
proof (relation "measure length")
  show "wf (measure length)" by simp
next
  fix s :: string
  assume "trailing_ws s \<noteq> 0"
  moreover have "trailing_ws s \<le> length s"
  proof (cases "filter (\<lambda>w. suffix w s) white_space")
    case Nil
    then show ?thesis by (simp add: trailing_ws_def)
  next
    case (Cons w ws)
    then have "w \<in> set (filter (\<lambda>w. suffix w s) white_space)" by simp
    then have "suffix w s" by simp
    then have "length w \<le> length s" by (rule suffix_length_le)
    with Cons show ?thesis by (simp add: trailing_ws_def)
  qed
  ultimately show "(take (length s - trailing_ws s) s, s) \<in> measure length" by simp
qed

declare trimStart.simps [simp del] trimEnd.simps [simp del]

text \<open>\<^verbatim>\<open>s.trim()\<close>\<close>

definition trim :: "string \<Rightarrow> string" where
  "trim s = trimEnd (trimStart s)"

text \<open>A string made of white-space characters only (the empty string included).\<close>

inductive whitespace_only :: "string \<Rightarrow> bool" where
  ws_empty: "whitespace_only []"
| ws_more: "w \<in> set white_space \<Longrightarrow> whitespace_only s \<Longrightarrow> whitespace_only (w @ s)"

subsection \<open>Platform numbers\<close>

definition is_digit :: "char \<Rightarrow> bool" where
  "is_digit c = (c \<in> set ''0123456789'')"

text \<open>\<^verbatim>\<open>/^\d+$/.test(s)\<close>: one or more ASCII digits and nothing else. Without the
  \<^verbatim>\<open>m\<close> flag \<^verbatim>\<open>$\<close> matches at the very end only, so a trailing line break fails.\<close>

definition all_digits :: "string \<Rightarrow> bool" where
  "all_digits s = (s \<noteq> [] \<and> list_all is_digit s)"

definition digit_value :: "char \<Rightarrow> nat" where
  "digit_value c = of_char c - of_char CHR ''0''"

text \<open>\<^verbatim>\<open>parseInt(s, 10)\<close> on a string of digits.\<close>

definition parseInt :: "string \<Rightarrow> nat" where
  "parseInt s = foldl (\<lambda>acc c. 10 * acc + digit_value c) 0 s"

definition digit_char :: "nat \<Rightarrow> char" where
  "digit_char d = char_of (of_char CHR ''0'' + d)"

function decimal :: "nat \<Rightarrow> string" where
  "decimal n = (if n < 10 then [digit_char n] else decimal (n div 10) @ [digit_char (n mod 10)])"
  by pat_completeness auto
termination
  by (relation "measure id") auto

declare decimal.simps [simp del]

text \<open>
  \<^verbatim>\<open>String(n)\<close> for a non-negative integer (Number::toString, radix 10): the decimal
  digits below \<open>10\<^sup>2\<^sup>1\<close>, exponent notation from there on (\<^verbatim>\<open>String(1e21)\<close> is
  \<^verbatim>\<open>"1e+21"\<close>). The significant digits are those of the integer itself; JavaScript prints
  the shortest digits that identify the double, which are the integer's own digits below
  \<open>2\<^sup>5\<^sup>3\<close> and at \<open>10\<^sup>2\<^sup>1\<close>, the only arguments used below.
\<close>

definition strip_trailing_zeros :: "string \<Rightarrow> string" where
  "strip_trailing_zeros s = rev (dropWhile (\<lambda>c. c = CHR ''0'') (rev s))"

definition String :: "nat \<Rightarrow> string" where
  "String n =
    (if n < 10 ^ 21 then decimal n
     else
       let ds = decimal n;
           e = decimal (length ds - 1);
           sig = strip_trailing_zeros ds
       in if length sig = 1 then sig @ ''e+'' @ e
          else hd sig # ''.'' @ tl sig @ ''e+'' @ e)"

subsection \<open>Param parsing\<close>

text \<open>The raw search parameters: a value is a string or an array of strings; an absent
  key is \<^verbatim>\<open>undefined\<close>.\<close>

datatype raw_value = Str string | Arr "string list"

type_synonym raw_params = "string \<rightharpoonup> raw_value"

record ParsedParams =
  q :: "string option"
  page :: nat
  semanticSearch :: bool

definition parseParams :: "raw_params \<Rightarrow> ParsedParams" where
  "parseParams raw =
    (let rawQ = (case raw ''query'' of
                   Some (Str s) \<Rightarrow> trim s
                 | Some (Arr xs) \<Rightarrow> trim (case xs of [] \<Rightarrow> [] | x # _ \<Rightarrow> x)
                 | None \<Rightarrow> []);
         q = (if length rawQ > 0 then Some rawQ else None);
         rawPage = (case raw ''page'' of Some (Str s) \<Rightarrow> s | _ \<Rightarrow> []);
         parsedPage = (if all_digits rawPage then parseInt rawPage else 1);
         page = (if parsedPage \<ge> 1 then parsedPage else 1);
         semanticSearch = (raw ''semanticSearch'' = Some (Str ''1''))
     in \<lparr> q = q, page = page, semanticSearch = semanticSearch \<rparr>)"

subsection \<open>The relational store\<close>

definition PAGE_SIZE :: nat where
  "PAGE_SIZE = 3"

text \<open>A row of table \<^verbatim>\<open>apartment\<close> (\<^verbatim>\<open>src/lib/db/schema.ts\<close>); \<^verbatim>\<open>description\<close> is
  nullable.\<close>

record Apartment =
  id' :: string
  name :: string
  imageId :: string
  price :: real
  description :: "string option"

text \<open>A row as the window-function query returns it: \<^verbatim>\<open>total\<close> is \<^verbatim>\<open>count(*) OVER()\<close>.\<close>

record DbRow = Apartment +
  total :: nat

text \<open>
  The store: the table in the order a scan returns it, and PostgreSQL's text search,
  \<open>ts_match db doc query\<close> for
  \<^verbatim>\<open>to_tsvector('simple', lower(doc)) @@ to_tsquery('simple', lower(query))\<close>.
\<close>

record store =
  apartments :: "Apartment list"
  ts_match :: "string \<Rightarrow> string \<Rightarrow> bool"

text \<open>\<^verbatim>\<open>s.split(/\s/)\<close>: the pieces of \<open>s\<close> between white-space characters; \<open>cur\<close> is the
  piece being read.\<close>

function split_ws :: "string \<Rightarrow> string \<Rightarrow> string list" where
  "split_ws cur s =
     (if s = [] then [cur]
      else if leading_ws s \<noteq> 0 then cur # split_ws [] (drop (leading_ws s) s)
      else split_ws (cur @ [hd s]) (tl s))"
  by pat_completeness auto
termination
proof (relation "measure (\<lambda>(cur, s). length s)")
  show "wf (measure (\<lambda>(cur, s). length s))" by simp
next
  fix cur s :: string
  assume "s \<noteq> []" and "leading_ws s \<noteq> 0"
  then show "(([], drop (leading_ws s) s), (cur, s)) \<in> measure (\<lambda>(cur, s). length s)"
    by simp
next
  fix cur s :: string
  assume "s \<noteq> []"
  then show "((cur @ [hd s], tl s), (cur, s)) \<in> measure (\<lambda>(cur, s). length s)"
    by simp
qed

declare split_ws.simps [simp del]

fun join :: "string \<Rightarrow> string list \<Rightarrow> string" where
  "join sep [] = []"
| "join sep [x] = x"
| "join sep (x # y # ys) = x @ sep @ join sep (y # ys)"

text \<open>\<^verbatim>\<open>q.trim().split(/\s+/).filter(Boolean).join(" & ")\<close>. Splitting at every white-space
  character and dropping the empty pieces gives the pieces between the runs.\<close>

definition tsQuery :: "string \<Rightarrow> string" where
  "tsQuery q = join '' & '' (filter (\<lambda>t. t \<noteq> []) (split_ws [] (trim q)))"
  for q

text \<open>JavaScript truthiness of a \<^verbatim>\<open>string | null\<close>: \<^verbatim>\<open>null\<close> and \<^verbatim>\<open>""\<close> are falsy.\<close>

definition truthy :: "string option \<Rightarrow> bool" where
  "truthy q = (case q of None \<Rightarrow> False | Some s \<Rightarrow> s \<noteq> [])"
  for q

text \<open>The rows the \<^verbatim>\<open>WHERE\<close> clause keeps: all of them when \<open>q\<close> is falsy.\<close>

definition matching :: "store \<Rightarrow> string option \<Rightarrow> Apartment list" where
  "matching db q =
     (case q of
        None \<Rightarrow> apartments db
      | Some s \<Rightarrow>
          if s = [] then apartments db
          else filter (\<lambda>a. ts_match db
                        (name a @ '' '' @ (case description a of None \<Rightarrow> [] | Some d \<Rightarrow> d))
                        (tsQuery s))
                 (apartments db))"
  for q

text \<open>The select list: the window function counts the rows that passed \<^verbatim>\<open>WHERE\<close>, before
  \<^verbatim>\<open>LIMIT\<close> and \<^verbatim>\<open>OFFSET\<close> apply.\<close>

definition select_with_total :: "Apartment list \<Rightarrow> DbRow list" where
  "select_with_total as = map (\<lambda>a. Apartment.extend a (DbRow.fields (length as))) as"

record FetchResult =
  rows :: "DbRow list"
  dbTotal :: nat

definition fetchFromDb :: "store \<Rightarrow> string option \<Rightarrow> nat \<Rightarrow> FetchResult" where
  "fetchFromDb db q page =
     (let fetchLimit = PAGE_SIZE + 1;
          offset = (page - 1) * PAGE_SIZE;
          rows = take fetchLimit (drop offset (select_with_total (matching db q)));
          dbTotal = (case rows of [] \<Rightarrow> 0 | r # _ \<Rightarrow> total r)
      in \<lparr> rows = rows, dbTotal = dbTotal \<rparr>)"
  for q page

subsection \<open>Vector metadata and its shape guard\<close>

text \<open>Untyped metadata as the index hands it over: a JSON value, or \<^verbatim>\<open>undefined\<close> when the
  record carries none.\<close>

datatype js_value =
    JUndefined
  | JNull
  | JBool bool
  | JNum real
  | JStr string
  | JArr "js_value list"
  | JObj "string \<Rightarrow> js_value option"

fun typeof :: "js_value \<Rightarrow> string" where
  "typeof JUndefined = ''undefined''"
| "typeof JNull = ''object''"
| "typeof (JBool b) = ''boolean''"
| "typeof (JNum x) = ''number''"
| "typeof (JStr s) = ''string''"
| "typeof (JArr xs) = ''object''"
| "typeof (JObj m) = ''object''"

text \<open>\<^verbatim>\<open>!val\<close>\<close>

fun falsy :: "js_value \<Rightarrow> bool" where
  "falsy JUndefined = True"
| "falsy JNull = True"
| "falsy (JBool b) = (\<not> b)"
| "falsy (JNum x) = (x = 0)"
| "falsy (JStr s) = (s = [])"
| "falsy (JArr xs) = False"
| "falsy (JObj m) = False"

text \<open>
  \<^verbatim>\<open>o[k]\<close> on a value that passed \<^verbatim>\<open>typeof val === "object"\<close>: an own property of an
  object; an element or the length of an array; \<^verbatim>\<open>undefined\<close> otherwise. (The prototypes
  carry no property named \<^verbatim>\<open>id\<close>, \<^verbatim>\<open>name\<close>, \<^verbatim>\<open>imageId\<close> or \<^verbatim>\<open>price\<close>.)
\<close>

fun get_prop :: "js_value \<Rightarrow> string \<Rightarrow> js_value" where
  "get_prop (JObj m) k = (case m k of None \<Rightarrow> JUndefined | Some v \<Rightarrow> v)"
| "get_prop (JArr xs) k =
     (if k = ''length'' then JNum (real (length xs))
      else if all_digits k \<and> decimal (parseInt k) = k \<and> parseInt k < length xs
           then xs ! parseInt k
      else JUndefined)"
| "get_prop v k = JUndefined"

definition isApartmentMetadata :: "js_value \<Rightarrow> bool" where
  "isApartmentMetadata val =
     (if falsy val \<or> typeof val \<noteq> ''object'' then False
      else typeof (get_prop val ''id'') = ''string'' \<and>
           typeof (get_prop val ''name'') = ''string'' \<and>
           typeof (get_prop val ''imageId'') = ''string'' \<and>
           typeof (get_prop val ''price'') = ''number'')"

subsection \<open>Semantic fallback\<close>

text \<open>A record of the vector index: its id is a string or a number.\<close>

datatype record_id = StringId string | NumberId nat

text \<open>\<^verbatim>\<open>String(r.id)\<close>\<close>

fun id_string :: "record_id \<Rightarrow> string" where
  "id_string (StringId s) = s"
| "id_string (NumberId n) = String n"

text \<open>One result of \<^verbatim>\<open>index.query\<close>; \<open>vector_id\<close> is its field \<^verbatim>\<open>id\<close>, and a score of
  \<open>None\<close> is a missing one (\<^verbatim>\<open>undefined\<close>).\<close>

record QueryResult =
  vector_id :: record_id
  score :: "real option"
  metadata :: js_value

text \<open>The index answers a request \<^verbatim>\<open>{ data, topK, includeMetadata: true }\<close>. The calls made
  to it are kept in a log, in order.\<close>

type_synonym Index = "string \<Rightarrow> nat \<Rightarrow> QueryResult list"

type_synonym call_log = "(string \<times> nat) list"

definition index_query :: "Index \<Rightarrow> call_log \<Rightarrow> string \<Rightarrow> nat \<Rightarrow> QueryResult list \<times> call_log" where
  "index_query index calls data topK = (index data topK, calls @ [(data, topK)])"

text \<open>
  Double precision. \<open>round_even\<close> rounds to the nearest integer, a tie to the even one.
  \<open>binade x\<close> is the exponent \<open>e\<close> with \<open>2\<^sup>e \<le> |x| < 2\<^sup>e\<^sup>+\<^sup>1\<close>, not below that of the subnormal
  numbers; the doubles of that binade are the multiples of \<open>2\<^sup>e\<^sup>-\<^sup>5\<^sup>2\<close>. \<open>round_double x\<close> is
  the double nearest to \<open>x\<close>. (From magnitude \<open>2\<^sup>1\<^sup>0\<^sup>2\<^sup>4\<close> on JavaScript has \<^verbatim>\<open>Infinity\<close>; the
  operations below do not get there from finite scores.)
\<close>

definition round_even :: "real \<Rightarrow> int" where
  "round_even y =
     (let n = \<lfloor>y\<rfloor>; r = y - of_int n
      in if r < 1 / 2 then n else if 1 / 2 < r then n + 1 else if even n then n else n + 1)"

definition binade :: "real \<Rightarrow> int" where
  "binade x = max \<lfloor>log 2 \<bar>x\<bar>\<rfloor> (- 1022)"

definition round_double :: "real \<Rightarrow> real" where
  "round_double x =
     (if x = 0 then 0
      else of_int (round_even (x / 2 powi (binade x - 52))) * 2 powi (binade x - 52))"

text \<open>\<^verbatim>\<open>a - b\<close>, \<^verbatim>\<open>a + b\<close> and \<^verbatim>\<open>a * b\<close> on doubles.\<close>

definition fl_sub :: "real \<Rightarrow> real \<Rightarrow> real" where
  "fl_sub a b = round_double (a - b)"

definition fl_add :: "real \<Rightarrow> real \<Rightarrow> real" where
  "fl_add a b = round_double (a + b)"

definition fl_mul :: "real \<Rightarrow> real \<Rightarrow> real" where
  "fl_mul a b = round_double (a * b)"

text \<open>The literals \<^verbatim>\<open>0.5\<close>, \<^verbatim>\<open>0.15\<close> and \<^verbatim>\<open>0.1\<close>: each is the double nearest to the decimal
  (\<open>0.5\<close> is a double itself).\<close>

definition ABSOLUTE_MIN :: real where
  "ABSOLUTE_MIN = 0.5"

definition SCORE_DROP_TOLERANCE :: real where
  "SCORE_DROP_TOLERANCE = round_double 0.15"

definition RANK_INCREMENT :: real where
  "RANK_INCREMENT = round_double 0.1"

text \<open>\<^verbatim>\<open>r.score >= x\<close>: a missing score compares as \<^verbatim>\<open>NaN\<close>, which is false.\<close>

definition score_ge :: "real option \<Rightarrow> real \<Rightarrow> bool" where
  "score_ge s x = (case s of None \<Rightarrow> False | Some v \<Rightarrow> v \<ge> x)"

text \<open>The candidates left after dropping the ids already found and the malformed
  metadata (\<^verbatim>\<open>valid\<close>).\<close>

definition valid_candidates :: "QueryResult list \<Rightarrow> string set \<Rightarrow> QueryResult list" where
  "valid_candidates res existingIds =
     filter (\<lambda>r. id_string (vector_id r) \<notin> existingIds \<and> isApartmentMetadata (metadata r)) res"

text \<open>The rest of \<^verbatim>\<open>fetchSemanticFallback\<close>, from \<^verbatim>\<open>valid\<close> on.\<close>

definition rank_filter :: "QueryResult list \<Rightarrow> js_value list" where
  "rank_filter valid =
     (case valid of
        [] \<Rightarrow> []
      | r0 # _ \<Rightarrow>
          let bestScore = (case score r0 of None \<Rightarrow> 0 | Some s \<Rightarrow> s);
              baseMin = max ABSOLUTE_MIN (fl_sub bestScore SCORE_DROP_TOLERANCE)
          in map (\<lambda>(r, i). metadata r)
               (filter (\<lambda>(r, i). score_ge (score r)
                                   (min 1 (fl_add baseMin (fl_mul (real i) RANK_INCREMENT))))
                  (zip valid [0 ..< length valid])))"

definition fetchSemanticFallback ::
    "Index \<Rightarrow> call_log \<Rightarrow> string \<Rightarrow> string set \<Rightarrow> js_value list \<times> call_log" where
  "fetchSemanticFallback index calls q existingIds =
     (let (res, calls') = index_query index calls q PAGE_SIZE;
          valid = valid_candidates res existingIds
      in (rank_filter valid, calls'))"
  for q

subsection \<open>URL construction\<close>

text \<open>\<^verbatim>\<open>URLSearchParams\<close>: a list of name-value pairs. \<^verbatim>\<open>set\<close> replaces the first pair of
  that name and removes the others, or appends.\<close>

fun set_param :: "(string \<times> string) list \<Rightarrow> string \<Rightarrow> string \<Rightarrow> (string \<times> string) list" where
  "set_param [] k v = [(k, v)]"
| "set_param ((k', v') # ps) k v =
     (if k' = k then (k, v) # filter (\<lambda>(a, b). a \<noteq> k) ps else (k', v') # set_param ps k v)"

definition hex_digit :: "nat \<Rightarrow> char" where
  "hex_digit n = ''0123456789ABCDEF'' ! n"

text \<open>The application/x-www-form-urlencoded byte serializer: a space becomes \<^verbatim>\<open>+\<close>, the
  letters, the digits and \<^verbatim>\<open>*-._\<close> stay, every other byte is \<^verbatim>\<open>%XX\<close>.\<close>

definition unreserved :: "char \<Rightarrow> bool" where
  "unreserved c =
     (c \<in> set ''*-._0123456789ABCDEFGHIJKLMNOPQRSTUVWXYZabcdefghijklmnopqrstuvwxyz'')"

definition encode_byte :: "char \<Rightarrow> string" where
  "encode_byte c =
     (if c = CHR '' '' then ''+''
      else if unreserved c then [c]
      else [CHR ''%'', hex_digit (of_char c div 16), hex_digit (of_char c mod 16)])"

definition form_encode :: "string \<Rightarrow> string" where
  "form_encode s = concat (map encode_byte s)"

text \<open>\<^verbatim>\<open>params.toString()\<close>\<close>

definition toString :: "(string \<times> string) list \<Rightarrow> string" where
  "toString params = join ''&'' (map (\<lambda>(k, v). form_encode k @ ''='' @ form_encode v) params)"

definition buildHref :: "nat \<Rightarrow> string option \<Rightarrow> bool \<Rightarrow> string" where
  "buildHref p q semanticSearch =
     (let params = [];
          params = (case q of
                      None \<Rightarrow> params
                    | Some s \<Rightarrow> if s = [] then params else set_param params ''query'' s);
          params = (if semanticSearch then set_param params ''semanticSearch'' ''1'' else params);
          params = (if p > 1 then set_param params ''page'' (String p) else params);
          qs = toString params
      in if qs \<noteq> [] then ''/?'' @ qs else ''/'')"
  for q semanticSearch

subsection \<open>The page\<close>

text \<open>What the page lists: a row of the store, or metadata of the index cast to
  \<^verbatim>\<open>Apartment\<close> unchanged.\<close>

datatype item = is_Row: Row DbRow | is_Extra: Extra js_value

text \<open>\<^verbatim>\<open>item.id\<close>\<close>

fun item_id :: "item \<Rightarrow> js_value" where
  "item_id (Row r) = JStr (id' r)"
| "item_id (Extra m) = get_prop m ''id''"

record SearchResult =
  items :: "item list"
  hasNext :: bool
  total :: nat

text \<open>Step 3 of \<^verbatim>\<open>Home\<close>, the optional semantic fallback: the extras and the calls made
  to the index. Inside the guard \<open>q\<close> is a string.\<close>

definition semanticExtras :: "Index \<Rightarrow> ParsedParams \<Rightarrow> FetchResult \<Rightarrow> js_value list \<times> call_log" where
  "semanticExtras index params fetched =
     (if semanticSearch params \<and> truthy (q params) \<and> length (rows fetched) < PAGE_SIZE
      then fetchSemanticFallback index [] (case q params of None \<Rightarrow> [] | Some s \<Rightarrow> s)
             (set (map id' (rows fetched)))
      else ([], []))"

text \<open>Steps 1 to 4 of \<^verbatim>\<open>Home\<close>: what the page renders, and the calls made to the index.\<close>

definition Home :: "store \<Rightarrow> Index \<Rightarrow> raw_params \<Rightarrow> SearchResult \<times> call_log" where
  "Home db index searchParams =
     (let params = parseParams searchParams;
          fetched = fetchFromDb db (q params) (page params);
          (semanticExtras, calls) = semanticExtras index params fetched;
          combined = map Row (rows fetched) @ map Extra semanticExtras;
          hasNext = (length combined > PAGE_SIZE);
          items = take PAGE_SIZE combined;
          total = dbTotal fetched + length semanticExtras
      in (\<lparr> items = items, hasNext = hasNext, total = total \<rparr>, calls))"

subsection \<open>The request boundary\<close>

text \<open>
  How the href of a link becomes the raw parameters of the next request. This is the
  framework's part, after the URL standard: the query is the text between \<^verbatim>\<open>?\<close> and
  \<^verbatim>\<open>#\<close>; it is split at \<^verbatim>\<open>&\<close> and every non-empty piece at its first \<^verbatim>\<open>=\<close>; in a name
  and in a value \<^verbatim>\<open>+\<close> is a space and \<^verbatim>\<open>%XX\<close> the byte \<open>XX\<close>; a name given once maps to
  its string, a name given several times to the array of its values.
\<close>

definition url_query :: "string \<Rightarrow> string" where
  "url_query href =
     takeWhile (\<lambda>c. c \<noteq> CHR ''#'') (drop 1 (dropWhile (\<lambda>c. c \<noteq> CHR ''?'') href))"

fun split_on :: "char \<Rightarrow> string \<Rightarrow> string list" where
  "split_on d [] = [[]]"
| "split_on d (c # cs) =
     (if c = d then [] # split_on d cs
      else (case split_on d cs of [] \<Rightarrow> [[c]] | piece # pieces \<Rightarrow> (c # piece) # pieces))"

definition hex_value :: "char \<Rightarrow> nat option" where
  "hex_value c =
     (if is_digit c then Some (of_char c - of_char CHR ''0'')
      else if c \<in> set ''ABCDEF'' then Some (of_char c - of_char CHR ''A'' + 10)
      else if c \<in> set ''abcdef'' then Some (of_char c - of_char CHR ''a'' + 10)
      else None)"

fun percent_decode :: "string \<Rightarrow> string" where
  "percent_decode (c # h # l # cs) =
     (case (c = CHR ''%'', hex_value h, hex_value l) of
        (True, Some x, Some y) \<Rightarrow> char_of (16 * x + y) # percent_decode cs
      | _ \<Rightarrow> c # percent_decode (h # l # cs))"
| "percent_decode (c # cs) = c # percent_decode cs"
| "percent_decode [] = []"

definition form_decode :: "string \<Rightarrow> string" where
  "form_decode s = percent_decode (map (\<lambda>c. if c = CHR ''+'' then CHR '' '' else c) s)"

definition parse_pair :: "string \<Rightarrow> string \<times> string" where
  "parse_pair piece =
     (form_decode (takeWhile (\<lambda>c. c \<noteq> CHR ''='') piece),
      form_decode (drop 1 (dropWhile (\<lambda>c. c \<noteq> CHR ''='') piece)))"

definition parse_query :: "string \<Rightarrow> (string \<times> string) list" where
  "parse_query qs = map parse_pair (filter (\<lambda>piece. piece \<noteq> []) (split_on CHR ''&'' qs))"

definition search_params :: "(string \<times> string) list \<Rightarrow> raw_params" where
  "search_params pairs k =
     (case map snd (filter (\<lambda>(n, v). n = k) pairs) of
        [] \<Rightarrow> None
      | [v] \<Rightarrow> Some (Str v)
      | vs \<Rightarrow> Some (Arr vs))"

definition request_params :: "string \<Rightarrow> raw_params" where
  "request_params href = search_params (parse_query (url_query href))"

subsection \<open>A small catalogue\<close>

text \<open>Two apartments that match every query, and an index that knows two others, with
  the scores \<^verbatim>\<open>0.9\<close> and \<^verbatim>\<open>0.95\<close>.\<close>

definition demo_apartment :: "string \<Rightarrow> Apartment" where
  "demo_apartment i =
     \<lparr> id' = i, name = ''Flat'', imageId = ''img'', price = 900, description = None \<rparr>"

definition demo_row :: "string \<Rightarrow> DbRow" where
  "demo_row i =
     \<lparr> id' = i, name = ''Flat'', imageId = ''img'', price = 900, description = None,
       DbRow.total = 2 \<rparr>"

definition demo_store :: store where
  "demo_store =
     \<lparr> apartments = [demo_apartment ''1'', demo_apartment ''2''],
       ts_match = (\<lambda>doc query. True) \<rparr>"

definition demo_metadata :: "string \<Rightarrow> js_value" where
  "demo_metadata i =
     JObj [''id'' \<mapsto> JStr i, ''name'' \<mapsto> JStr ''Loft'', ''imageId'' \<mapsto> JStr ''img'',
           ''price'' \<mapsto> JNum 700]"

definition demo_index :: Index where
  "demo_index data topK =
     [\<lparr> vector_id = StringId ''7'', score = Some (round_double 0.9), metadata = demo_metadata ''7'' \<rparr>,
      \<lparr> vector_id = StringId ''8'', score = Some (round_double 0.95), metadata = demo_metadata ''8'' \<rparr>]"

definition demo_request :: raw_params where
  "demo_request = [''query'' \<mapsto> Str ''loft'', ''semanticSearch'' \<mapsto> Str ''1'']"

text \<open>A store of four apartments: its first page is full.\<close>

definition full_store :: store where
  "full_store =
     \<lparr> apartments = map demo_apartment [''1'', ''2'', ''3'', ''4''],
       ts_match = (\<lambda>doc query. True) \<rparr>"

text \<open>An index whose record \<^verbatim>\<open>v1\<close> carries the metadata of apartment \<^verbatim>\<open>1\<close>.\<close>

definition clash_index :: Index where
  "clash_index data topK =
     [\<lparr> vector_id = StringId ''v1'', score = Some (round_double 0.9), metadata = demo_metadata ''1'' \<rparr>]"

text \<open>Metadata whose description is a number, and an index that returns it.\<close>

definition odd_metadata :: js_value where
  "odd_metadata =
     JObj [''id'' \<mapsto> JStr ''9'', ''name'' \<mapsto> JStr ''Loft'', ''imageId'' \<mapsto> JStr ''img'',
           ''price'' \<mapsto> JNum 700, ''description'' \<mapsto> JNum 5]"

definition odd_index :: Index where
  "odd_index data topK =
     [\<lparr> vector_id = StringId ''9'', score = Some (round_double 0.8), metadata = odd_metadata \<rparr>]"

section \<open>Properties\<close>

subsection \<open>Double precision\<close>

lemma round_even_error: "\<bar>of_int (round_even y) - y\<bar> \<le> 1 / 2"
  unfolding round_even_def Let_def by (auto simp: abs_le_iff)

lemma binade_eq:
  assumes "2 powi e \<le> \<bar>x\<bar>" and "\<bar>x\<bar> < 2 powi (e + 1)" and "- 1022 \<le> e"
  shows "binade x = e"
proof -
  have pos: "0 < \<bar>x\<bar>"
    using assms(1) by (smt (verit) zero_less_power_int)
  have a: "2 powr (real_of_int e) = (2::real) powi e"
    by (simp add: powr_real_of_int')
  have b: "2 powr (real_of_int e + 1) = (2::real) powi (e + 1)"
    using powr_real_of_int' [of 2 "e + 1"] by simp
  have "\<lfloor>log 2 \<bar>x\<bar>\<rfloor> = e"
    using assms(1,2) pos by (simp add: floor_log_eq_powr_iff a b)
  with assms(3) show ?thesis by (simp add: binade_def)
qed

lemma round_double_eval:
  assumes "2 powi e \<le> \<bar>x\<bar>" and "\<bar>x\<bar> < 2 powi (e + 1)" and "- 1022 \<le> e"
  shows "round_double x = of_int (round_even (x / 2 powi (e - 52))) * 2 powi (e - 52)"
proof -
  have "x \<noteq> 0"
    using assms(1) by (smt (verit) zero_less_power_int abs_zero)
  then show ?thesis
    by (simp add: round_double_def binade_eq [OF assms])
qed

lemma round_double_error: "\<bar>round_double x - x\<bar> \<le> 2 powi (binade x - 53)"
proof (cases "x = 0")
  case True
  then show ?thesis by (simp add: round_double_def)
next
  case False
  define u :: real where "u = 2 powi (binade x - 52)"
  have u: "0 < u" by (simp add: u_def)
  have "round_double x - x = u * (of_int (round_even (x / u)) - x / u)"
    using False u by (simp add: round_double_def u_def field_simps)
  then have "\<bar>round_double x - x\<bar> = u * \<bar>of_int (round_even (x / u)) - x / u\<bar>"
    using u by (simp add: abs_mult)
  also have "\<dots> \<le> u * (1 / 2)"
    using u round_even_error [of "x / u"] by (intro mult_left_mono) simp_all
  also have "\<dots> = 2 powi (binade x - 53)"
    using power_int_add [of "2::real" "binade x - 53" 1] by (simp add: u_def)
  finally show ?thesis .
qed

lemma binade_small: "x \<noteq> 0 \<Longrightarrow> \<bar>x\<bar> < 2 \<Longrightarrow> binade x \<le> 0"
proof -
  assume "x \<noteq> 0" and "\<bar>x\<bar> < 2"
  then have "log 2 \<bar>x\<bar> < 1"
    by (simp add: log_less_iff)
  then have "\<lfloor>log 2 \<bar>x\<bar>\<rfloor> \<le> 0"
    by (simp add: floor_le_iff)
  then show ?thesis by (simp add: binade_def)
qed

lemma round_double_near:
  assumes "\<bar>x\<bar> < 2"
  shows "\<bar>round_double x - x\<bar> \<le> 1 / 2 ^ 53"
proof (cases "x = 0")
  case True
  then show ?thesis by (simp add: round_double_def)
next
  case False
  have "(2::real) powi (binade x - 53) \<le> 2 powi (- 53)"
    using binade_small [OF False assms] by (intro power_int_increasing) simp_all
  also have "\<dots> = 1 / 2 ^ 53"
    by (simp add: power_int_minus field_simps)
  finally show ?thesis
    using round_double_error [of x] by simp
qed

lemma round_double_zero: "round_double 0 = 0"
  by (simp add: round_double_def)

lemma round_double_half: "round_double (1 / 2) = 1 / 2"
  by (subst round_double_eval [where e = "- 1"]) (simp_all add: round_even_def power_int_minus)


lemma literal_near:
  "\<bar>SCORE_DROP_TOLERANCE - 0.15\<bar> \<le> 1 / 2 ^ 53" "\<bar>RANK_INCREMENT - 0.1\<bar> \<le> 1 / 2 ^ 53"
  unfolding SCORE_DROP_TOLERANCE_def RANK_INCREMENT_def
  by (rule round_double_near, simp)+

lemma threshold_near:
  assumes "\<bar>best\<bar> \<le> 1" and "0 \<le> x" and "x \<le> 8"
  shows "\<bar>min 1 (fl_add (max ABSOLUTE_MIN (fl_sub best SCORE_DROP_TOLERANCE))
                    (fl_mul x RANK_INCREMENT)) -
          min 1 (max 0.5 (best - 0.15) + 0.1 * x)\<bar> \<le> 12 / 2 ^ 53"
proof -
  define eps :: real where "eps = 1 / 2 ^ 53"
  have eps: "0 < eps" "eps < 1 / 1000"
    by (simp_all add: eps_def)
  define c where "c = SCORE_DROP_TOLERANCE"
  define d where "d = RANK_INCREMENT"
  have c: "\<bar>c - 0.15\<bar> \<le> eps" and d: "\<bar>d - 0.1\<bar> \<le> eps"
    using literal_near by (simp_all add: c_def d_def eps_def)
  define y where "y = fl_sub best c"
  have "\<bar>best - c\<bar> < 2"
    using assms(1) c eps by (simp add: abs_le_iff abs_less_iff)
  then have "\<bar>y - (best - c)\<bar> \<le> eps"
    unfolding y_def fl_sub_def eps_def by (rule round_double_near)
  then have y: "\<bar>y - (best - 0.15)\<bar> \<le> 2 * eps"
    using c by (simp add: abs_le_iff)
  define B where "B = max ABSOLUTE_MIN y"
  have B: "\<bar>B - max 0.5 (best - 0.15)\<bar> \<le> 2 * eps"
    using y by (auto simp: B_def ABSOLUTE_MIN_def max_def abs_le_iff)
  have Bup: "\<bar>B\<bar> \<le> 43 / 50"
    using y assms(1) eps by (auto simp: B_def ABSOLUTE_MIN_def max_def abs_le_iff)
  define m where "m = fl_mul x d"
  have "x * d - 0.1 * x = x * (d - 0.1)"
    by (simp add: algebra_simps)
  then have "\<bar>x * d - 0.1 * x\<bar> = x * \<bar>d - 0.1\<bar>"
    using assms(2) by (simp add: abs_mult)
  also have "\<dots> \<le> 8 * eps"
    using assms(2,3) d by (intro mult_mono) simp_all
  finally have xd: "\<bar>x * d - 0.1 * x\<bar> \<le> 8 * eps" .
  then have "\<bar>x * d\<bar> < 2"
    using assms(2,3) eps by (simp add: abs_le_iff abs_less_iff)
  then have "\<bar>m - x * d\<bar> \<le> eps"
    unfolding m_def fl_mul_def eps_def by (rule round_double_near)
  with xd have m: "\<bar>m - 0.1 * x\<bar> \<le> 9 * eps"
    by (simp add: abs_le_iff)
  have "\<bar>B + m\<bar> < 2"
    using Bup m assms(2,3) eps by simp
  then have "\<bar>fl_add B m - (B + m)\<bar> \<le> eps"
    unfolding fl_add_def eps_def by (rule round_double_near)
  with B m have "\<bar>fl_add B m - (max 0.5 (best - 0.15) + 0.1 * x)\<bar> \<le> 12 * eps"
    by (simp add: abs_le_iff)
  then have "\<bar>min 1 (fl_add B m) - min 1 (max 0.5 (best - 0.15) + 0.1 * x)\<bar> \<le> 12 * eps"
    by (auto simp: min_def abs_le_iff)
  then show ?thesis
    by (simp add: B_def m_def y_def c_def d_def eps_def)
qed

lemma abs_diff_bounds: "\<bar>a - b\<bar> \<le> e \<Longrightarrow> a \<le> b + e \<and> b - e \<le> (a::real)"
  by (simp add: abs_le_iff algebra_simps)

lemma round_double_within:
  assumes "\<bar>x\<bar> < 2"
  shows "x - 1 / 1000000 \<le> round_double x" and "round_double x \<le> x + 1 / 1000000"
proof -
  have "\<bar>round_double x - x\<bar> \<le> 1 / 2 ^ 53"
    using assms by (rule round_double_near)
  moreover have "(1::real) / 2 ^ 53 \<le> 1 / 1000000"
    by simp
  ultimately have "\<bar>round_double x - x\<bar> \<le> 1 / 1000000"
    by (rule order_trans)
  from abs_diff_bounds [OF this]
  show "x - 1 / 1000000 \<le> round_double x" and "round_double x \<le> x + 1 / 1000000"
    by simp_all
qed

lemma threshold_within:
  assumes "\<bar>best\<bar> \<le> 1" and "0 \<le> x" and "x \<le> 8"
  shows "min 1 (max (1 / 2) (best - 3 / 20) + x / 10) - 1 / 1000000 \<le>
           min 1 (fl_add (max ABSOLUTE_MIN (fl_sub best SCORE_DROP_TOLERANCE))
                    (fl_mul x RANK_INCREMENT))"
    and "min 1 (fl_add (max ABSOLUTE_MIN (fl_sub best SCORE_DROP_TOLERANCE))
                    (fl_mul x RANK_INCREMENT)) \<le>
           min 1 (max (1 / 2) (best - 3 / 20) + x / 10) + 1 / 1000000"
proof -
  have "\<bar>min 1 (fl_add (max ABSOLUTE_MIN (fl_sub best SCORE_DROP_TOLERANCE))
                    (fl_mul x RANK_INCREMENT)) -
          min 1 (max (1 / 2) (best - 3 / 20) + x / 10)\<bar> \<le> 12 / 2 ^ 53"
    using threshold_near [OF assms] by simp
  moreover have "(12::real) / 2 ^ 53 \<le> 1 / 1000000"
    by simp
  ultimately have "\<bar>min 1 (fl_add (max ABSOLUTE_MIN (fl_sub best SCORE_DROP_TOLERANCE))
                    (fl_mul x RANK_INCREMENT)) -
          min 1 (max (1 / 2) (best - 3 / 20) + x / 10)\<bar> \<le> 1 / 1000000"
    by (rule order_trans)
  from abs_diff_bounds [OF this]
  show "min 1 (max (1 / 2) (best - 3 / 20) + x / 10) - 1 / 1000000 \<le>
           min 1 (fl_add (max ABSOLUTE_MIN (fl_sub best SCORE_DROP_TOLERANCE))
                    (fl_mul x RANK_INCREMENT))"
    and "min 1 (fl_add (max ABSOLUTE_MIN (fl_sub best SCORE_DROP_TOLERANCE))
                    (fl_mul x RANK_INCREMENT)) \<le>
           min 1 (max (1 / 2) (best - 3 / 20) + x / 10) + 1 / 1000000"
    by simp_all
qed

lemma passes_near:
  assumes "\<bar>best\<bar> \<le> 1" and "0 \<le> x" and "x \<le> 8"
    and "min 1 (max (1 / 2) (best - 3 / 20) + x / 10) + 1 / 1000000 \<le> s"
  shows "score_ge (Some s) (min 1 (fl_add (max ABSOLUTE_MIN (fl_sub best SCORE_DROP_TOLERANCE))
                                     (fl_mul x RANK_INCREMENT)))"
  using threshold_within(2) [OF assms(1-3)] assms(4)
  unfolding score_ge_def option.case by (rule order_trans)

lemma fails_near:
  assumes "\<bar>best\<bar> \<le> 1" and "0 \<le> x" and "x \<le> 8"
    and "s < min 1 (max (1 / 2) (best - 3 / 20) + x / 10) - 1 / 1000000"
  shows "\<not> score_ge (Some s) (min 1 (fl_add (max ABSOLUTE_MIN (fl_sub best SCORE_DROP_TOLERANCE))
                                       (fl_mul x RANK_INCREMENT)))"
  using assms(4) threshold_within(1) [OF assms(1-3)]
  unfolding score_ge_def option.case not_le by (rule less_le_trans)

lemma rank_filter_1:
  "rank_filter [a] =
     (let B = max ABSOLUTE_MIN (fl_sub (case score a of None \<Rightarrow> 0 | Some s \<Rightarrow> s) SCORE_DROP_TOLERANCE)
      in (if score_ge (score a) (min 1 (fl_add B (fl_mul 0 RANK_INCREMENT))) then [metadata a] else []))"
  by (simp add: rank_filter_def Let_def)

lemma rank_filter_2:
  "rank_filter [a, b] =
     (let B = max ABSOLUTE_MIN (fl_sub (case score a of None \<Rightarrow> 0 | Some s \<Rightarrow> s) SCORE_DROP_TOLERANCE)
      in (if score_ge (score a) (min 1 (fl_add B (fl_mul 0 RANK_INCREMENT))) then [metadata a] else []) @
         (if score_ge (score b) (min 1 (fl_add B (fl_mul 1 RANK_INCREMENT))) then [metadata b] else []))"
  by (simp add: rank_filter_def Let_def upt_rec)

lemma rank_filter_3:
  "rank_filter [a, b, c] =
     (let B = max ABSOLUTE_MIN (fl_sub (case score a of None \<Rightarrow> 0 | Some s \<Rightarrow> s) SCORE_DROP_TOLERANCE)
      in (if score_ge (score a) (min 1 (fl_add B (fl_mul 0 RANK_INCREMENT))) then [metadata a] else []) @
         (if score_ge (score b) (min 1 (fl_add B (fl_mul 1 RANK_INCREMENT))) then [metadata b] else []) @
         (if score_ge (score c) (min 1 (fl_add B (fl_mul 2 RANK_INCREMENT))) then [metadata c] else []))"
  by (simp add: rank_filter_def Let_def upt_rec)

lemma rank_filter_4:
  "rank_filter [a, b, c, d] =
     (let B = max ABSOLUTE_MIN (fl_sub (case score a of None \<Rightarrow> 0 | Some s \<Rightarrow> s) SCORE_DROP_TOLERANCE)
      in (if score_ge (score a) (min 1 (fl_add B (fl_mul 0 RANK_INCREMENT))) then [metadata a] else []) @
         (if score_ge (score b) (min 1 (fl_add B (fl_mul 1 RANK_INCREMENT))) then [metadata b] else []) @
         (if score_ge (score c) (min 1 (fl_add B (fl_mul 2 RANK_INCREMENT))) then [metadata c] else []) @
         (if score_ge (score d) (min 1 (fl_add B (fl_mul 3 RANK_INCREMENT))) then [metadata d] else []))"
  by (simp add: rank_filter_def Let_def upt_rec)

lemma score_within:
  "9 / 10 - 1 / 1000000 \<le> round_double 0.9" "round_double 0.9 \<le> 9 / 10 + 1 / 1000000"
  "19 / 20 - 1 / 1000000 \<le> round_double 0.95" "round_double 0.95 \<le> 19 / 20 + 1 / 1000000"
  "17 / 20 - 1 / 1000000 \<le> round_double 0.85" "round_double 0.85 \<le> 17 / 20 + 1 / 1000000"
  "3 / 10 - 1 / 1000000 \<le> round_double 0.3" "round_double 0.3 \<le> 3 / 10 + 1 / 1000000"
  "4 / 5 - 1 / 1000000 \<le> round_double 0.8" "round_double 0.8 \<le> 4 / 5 + 1 / 1000000"
  using round_double_within [of "0.9"] round_double_within [of "0.95"]
    round_double_within [of "0.85"] round_double_within [of "0.3"] round_double_within [of "0.8"]
  by simp_all

lemma literal_within:
  "3 / 20 - 1 / 1000000 \<le> SCORE_DROP_TOLERANCE" "SCORE_DROP_TOLERANCE \<le> 3 / 20 + 1 / 1000000"
  using round_double_within [of "0.15"] by (simp_all add: SCORE_DROP_TOLERANCE_def)

text \<open>The only candidate passes when its score is 0.5 or more: the threshold is then
  0.5, or about 0.15 below the score, or 1.\<close>

lemma rank_filter_single:
  assumes "score a = Some s" and "1 / 2 \<le> s"
  shows "rank_filter [a] = [metadata a]"
proof -
  define c where "c = SCORE_DROP_TOLERANCE"
  define B where "B = max ABSOLUTE_MIN (fl_sub s c)"
  define T where "T = min 1 (fl_add B (fl_mul 0 RANK_INCREMENT))"
  have c: "3 / 20 - 1 / 1000000 \<le> c" "c \<le> 3 / 20 + 1 / 1000000"
    using literal_within by (simp_all add: c_def)
  have "T \<le> s"
  proof -
    consider "s \<le> 3 / 5" | "3 / 5 < s" "s \<le> 1" | "1 < s"
      by linarith
    then show ?thesis
    proof cases
      case 1
      with assms(2) c have "\<bar>s - c\<bar> < 2"
        by simp
      then have "fl_sub s c \<le> s - c + 1 / 1000000"
        unfolding fl_sub_def by (rule round_double_within)
      with 1 c have "fl_sub s c < 1 / 2"
        by simp
      then have \<open>B = 1 / 2\<close>
        by (simp add: B_def ABSOLUTE_MIN_def max_def)
      have h: "fl_add (1 / 2) (fl_mul 0 RANK_INCREMENT) = 1 / 2"
        by (simp add: fl_mul_def fl_add_def round_double_zero round_double_half)
      have "T = 1 / 2"
        unfolding T_def \<open>B = 1 / 2\<close> h by simp
      with assms(2) show ?thesis by simp
    next
      case 2
      with assms(2) have "\<bar>s\<bar> \<le> 1" by simp
      moreover from 2 have "min 1 (max (1 / 2) (s - 3 / 20) + 0 / 10) + 1 / 1000000 \<le> s"
        by (simp add: min_def max_def)
      ultimately have "score_ge (Some s) T"
        unfolding T_def B_def c_def by (intro passes_near) simp_all
      then show ?thesis by (simp add: score_ge_def)
    next
      case 3
      then show ?thesis by (simp add: T_def min_def)
    qed
  qed
  then show ?thesis
    using assms(1) unfolding T_def B_def c_def
    by (simp add: rank_filter_1 Let_def score_ge_def)
qed

text \<open>Two candidates with the scores \<^verbatim>\<open>0.9\<close> and \<^verbatim>\<open>0.95\<close>: the thresholds are about 0.75 and
  0.85, and both pass.\<close>

lemma rank_filter_pair:
  assumes "score a = Some (round_double 0.9)" and "score b = Some (round_double 0.95)"
  shows "rank_filter [a, b] = [metadata a, metadata b]"
proof -
  define s0 where "s0 = round_double 0.9"
  define s1 where "s1 = round_double 0.95"
  have s0: "9 / 10 - 1 / 1000000 \<le> s0" "s0 \<le> 9 / 10 + 1 / 1000000"
    and s1: "19 / 20 - 1 / 1000000 \<le> s1"
    using score_within by (simp_all add: s0_def s1_def)
  have best: "\<bar>s0\<bar> \<le> 1"
    using s0 by simp
  have "min 1 (max (1 / 2) (s0 - 3 / 20) + 0 / 10) + 1 / 1000000 \<le> s0"
    using s0 by (simp add: min_def max_def)
  then have p0: "score_ge (Some s0)
      (min 1 (fl_add (max ABSOLUTE_MIN (fl_sub s0 SCORE_DROP_TOLERANCE)) (fl_mul 0 RANK_INCREMENT)))"
    using best by (intro passes_near) simp_all
  have "min 1 (max (1 / 2) (s0 - 3 / 20) + 1 / 10) + 1 / 1000000 \<le> s1"
    using s0 s1 by (simp add: min_def max_def)
  then have p1: "score_ge (Some s1)
      (min 1 (fl_add (max ABSOLUTE_MIN (fl_sub s0 SCORE_DROP_TOLERANCE)) (fl_mul 1 RANK_INCREMENT)))"
    using best by (intro passes_near) simp_all
  show ?thesis
    unfolding rank_filter_2 Let_def assms s0_def [symmetric] s1_def [symmetric]
    using p0 p1 by simp
qed

subsection \<open>Evaluating the small catalogue\<close>

lemma trimStart_id: "leading_ws s = 0 \<Longrightarrow> trimStart s = s"
  by (subst trimStart.simps) simp

lemma trimEnd_id: "trailing_ws s = 0 \<Longrightarrow> trimEnd s = s"
  by (subst trimEnd.simps) simp

lemma trim_id: "leading_ws s = 0 \<Longrightarrow> trailing_ws s = 0 \<Longrightarrow> trim s = s"
  by (simp add: trim_def trimStart_id trimEnd_id)

lemma trim_loft: "trim ''loft'' = ''loft''"
  by (rule trim_id) (simp_all add: leading_ws_def trailing_ws_def white_space_def suffix_to_prefix)

lemma parseParams_demo:
  "parseParams demo_request = \<lparr> q = Some ''loft'', page = 1, semanticSearch = True \<rparr>"
  by (simp add: parseParams_def demo_request_def trim_loft all_digits_def)

lemma demo_fetched:
  "fetchFromDb demo_store (q (parseParams demo_request)) (page (parseParams demo_request)) =
     \<lparr> rows = [demo_row ''1'', demo_row ''2''], dbTotal = 2 \<rparr>"
  by (simp add: parseParams_demo fetchFromDb_def matching_def demo_store_def
        select_with_total_def PAGE_SIZE_def demo_apartment_def demo_row_def
        Apartment.extend_def DbRow.fields_def)

lemma isApartmentMetadata_demo: "isApartmentMetadata (demo_metadata i)"
  by (simp add: isApartmentMetadata_def demo_metadata_def)

lemma fallback_demo:
  "''7'' \<notin> E \<Longrightarrow> ''8'' \<notin> E \<Longrightarrow>
   fetchSemanticFallback demo_index [] t E =
     ([demo_metadata ''7'', demo_metadata ''8''], [(t, PAGE_SIZE)])"
  by (simp add: fetchSemanticFallback_def index_query_def demo_index_def valid_candidates_def
        isApartmentMetadata_demo rank_filter_pair)

lemma demo_row_ids: "map id' [demo_row ''1'', demo_row ''2''] = [''1'', ''2'']"
  by (simp add: demo_row_def)

lemma demo_extras:
  "semanticExtras demo_index (parseParams demo_request)
      \<lparr> rows = [demo_row ''1'', demo_row ''2''], dbTotal = 2 \<rparr> =
     ([demo_metadata ''7'', demo_metadata ''8''], [(''loft'', PAGE_SIZE)])"
proof -
  have "length [demo_row ''1'', demo_row ''2''] < PAGE_SIZE"
    by (simp add: PAGE_SIZE_def)
  moreover have "''7'' \<notin> set (map id' [demo_row ''1'', demo_row ''2''])"
    and "''8'' \<notin> set (map id' [demo_row ''1'', demo_row ''2''])"
    by (simp_all add: demo_row_def)
  ultimately show ?thesis
    by (simp add: semanticExtras_def parseParams_demo truthy_def fallback_demo)
qed

lemma demo_home:
  "Home demo_store demo_index demo_request =
     (\<lparr> items = [Row (demo_row ''1''), Row (demo_row ''2''), Extra (demo_metadata ''7'')],
        hasNext = True, total = 4 \<rparr>, [(''loft'', PAGE_SIZE)])"
  unfolding Home_def Let_def demo_fetched demo_extras
  by (simp add: PAGE_SIZE_def)

subsection \<open>The merge\<close>

lemma truthy_parseParams: "truthy (q (parseParams sp)) = (q (parseParams sp) \<noteq> None)"
  by (simp add: parseParams_def truthy_def Let_def)

lemma Home_items:
  "items (fst (Home db index sp)) =
     take PAGE_SIZE
       (map Row (rows (fetchFromDb db (q (parseParams sp)) (page (parseParams sp)))) @
        map Extra (fst (semanticExtras index (parseParams sp)
                          (fetchFromDb db (q (parseParams sp)) (page (parseParams sp))))))"
  by (simp add: Home_def Let_def split_def)

text \<open>
  C4. The items of the page are the first \<open>PAGE_SIZE\<close> elements of the store's rows followed
  by the semantic extras, each in its own order, and \<open>hasNext\<close> says whether that
  concatenation is longer than \<open>PAGE_SIZE\<close>. With two rows and two extras the page has
  three items and a next page.
\<close>

theorem Home_items_hasNext:
  "let params = parseParams sp;
       fetched = fetchFromDb db (q params) (page params);
       extras = fst (semanticExtras index params fetched);
       combined = map Row (rows fetched) @ map Extra extras;
       result = fst (Home db index sp)
   in items result = take PAGE_SIZE combined \<and>
      hasNext result = (length combined > PAGE_SIZE) \<and>
      PAGE_SIZE = 3 \<and>
      (length (rows fetched) = 2 \<and> length extras = 2 \<longrightarrow>
         length (items result) = 3 \<and> hasNext result)"
  by (simp add: Home_def Let_def split_def PAGE_SIZE_def)

theorem Home_items_hasNext_witness:
  "length (rows (fetchFromDb demo_store (q (parseParams demo_request))
                   (page (parseParams demo_request)))) = 2 \<and>
   length (fst (semanticExtras demo_index (parseParams demo_request)
      (fetchFromDb demo_store (q (parseParams demo_request))
         (page (parseParams demo_request))))) = 2 \<and>
   length (items (fst (Home demo_store demo_index demo_request))) = 3 \<and>
   hasNext (fst (Home demo_store demo_index demo_request))"
  using Home_items_hasNext [of demo_request demo_store demo_index]
  unfolding Let_def demo_fetched demo_extras by simp

text \<open>
  C2. The index is called exactly when the semantic flag is set, the text is present and
  the store returned fewer than \<open>PAGE_SIZE\<close> rows; the call then carries the text and asks
  for \<open>PAGE_SIZE\<close> candidates. In every other case, a page of \<open>PAGE_SIZE\<close> or more rows
  included, no call is made and there are no extras.
\<close>

theorem fallback_invoked_iff:
  "let params = parseParams sp;
       fetched = fetchFromDb db (q params) (page params);
       invoked = (semanticSearch params \<and> q params \<noteq> None \<and> length (rows fetched) < PAGE_SIZE)
   in snd (Home db index sp) =
        (if invoked then [(case q params of None \<Rightarrow> [] | Some s \<Rightarrow> s, PAGE_SIZE)] else []) \<and>
      (snd (Home db index sp) \<noteq> []) = invoked \<and>
      (PAGE_SIZE \<le> length (rows fetched) \<longrightarrow>
         snd (Home db index sp) = [] \<and> fst (semanticExtras index params fetched) = []) \<and>
      PAGE_SIZE = 3"
  by (auto simp: Home_def semanticExtras_def fetchSemanticFallback_def index_query_def
        truthy_parseParams Let_def split_def PAGE_SIZE_def)

lemma full_fetched:
  "length (rows (fetchFromDb full_store (q (parseParams demo_request))
                   (page (parseParams demo_request)))) = 4"
  by (simp add: parseParams_demo fetchFromDb_def matching_def full_store_def
        select_with_total_def PAGE_SIZE_def)

theorem fallback_invoked_iff_witness:
  "snd (Home demo_store demo_index demo_request) = [(''loft'', 3)] \<and>
   PAGE_SIZE \<le> length (rows (fetchFromDb full_store (q (parseParams demo_request))
                               (page (parseParams demo_request)))) \<and>
   snd (Home full_store demo_index demo_request) = [] \<and>
   fst (semanticExtras demo_index (parseParams demo_request)
          (fetchFromDb full_store (q (parseParams demo_request))
             (page (parseParams demo_request)))) = []"
proof -
  have "snd (Home demo_store demo_index demo_request) = [(''loft'', 3)]"
    using fallback_invoked_iff [of demo_request demo_store demo_index]
    unfolding Let_def demo_fetched
    by (simp add: parseParams_demo PAGE_SIZE_def)
  moreover have "snd (Home full_store demo_index demo_request) = [] \<and>
      fst (semanticExtras demo_index (parseParams demo_request)
             (fetchFromDb full_store (q (parseParams demo_request))
                (page (parseParams demo_request)))) = []"
    using fallback_invoked_iff [of demo_request full_store demo_index] full_fetched
    unfolding Let_def
    by (simp add: PAGE_SIZE_def)
  ultimately show ?thesis
    using full_fetched by (simp add: PAGE_SIZE_def)
qed

text \<open>
  C1. The total is meant to add to the store's count the extras that are on the page. On
  the small catalogue the store counts 2 and returns both rows, the fallback accepts two
  extras, and the page of three shows one of them: the total is 4, not 3.
\<close>

theorem total_counts_extras_off_page:
  "dbTotal (fetchFromDb demo_store (q (parseParams demo_request))
              (page (parseParams demo_request))) = 2 \<and>
   length (filter is_Extra (items (fst (Home demo_store demo_index demo_request)))) = 1 \<and>
   total (fst (Home demo_store demo_index demo_request)) = 4"
  by (simp add: demo_home demo_fetched)

text \<open>
  C5 as stated fails: with two rows on the page the shortfall is 1, and the fallback
  returns 2 extras.
\<close>

theorem fallback_exceeds_shortfall:
  "\<not> length (fst (fetchSemanticFallback demo_index [] ''loft''
                  (set (map id' [demo_row ''1'', demo_row ''2''])))) \<le>
     PAGE_SIZE - length [demo_row ''1'', demo_row ''2'']"
  by (simp add: fallback_demo demo_row_def PAGE_SIZE_def)

text \<open>
  C5, amended. The fallback returns the items of the surviving candidates in the order
  the index gave them and does not truncate them. The merge truncates: the extras that
  reach the page are the first \<open>PAGE_SIZE - length rows\<close> of them, so the page never holds
  more extras than its shortfall.
\<close>

lemma subseq_map_filter_zip:
  "subseq (map (\<lambda>(r, i). f r) (filter P (zip xs ys))) (map f xs)"
proof -
  have "subseq (filter P (zip xs ys)) (zip xs ys)" by simp
  then have "subseq (map (\<lambda>(r, i). f r) (filter P (zip xs ys))) (map (\<lambda>(r, i). f r) (zip xs ys))"
    by (rule subseq_map)
  moreover have "subseq (map (\<lambda>(r, i). f r) (zip xs ys)) (map f xs)"
  proof (induction xs arbitrary: ys)
    case Nil
    then show ?case by simp
  next
    case (Cons x xs)
    then show ?case by (cases ys) simp_all
  qed
  ultimately show ?thesis by (rule subseq_order.trans)
qed

lemma rank_filter_subseq: "subseq (rank_filter valid) (map metadata valid)"
proof (cases valid)
  case Nil
  then show ?thesis by (simp add: rank_filter_def)
next
  case (Cons r0 rest)
  then have "\<exists>P. rank_filter valid = map (\<lambda>(r, i). metadata r) (filter P (zip valid [0 ..< length valid]))"
    unfolding rank_filter_def Let_def by (simp only: list.case) blast
  then show ?thesis using subseq_map_filter_zip by metis
qed

lemma fallback_subseq:
  "subseq (fst (fetchSemanticFallback index calls t E)) (map metadata (index t PAGE_SIZE))"
proof -
  have "subseq (map metadata (valid_candidates (index t PAGE_SIZE) E))
          (map metadata (index t PAGE_SIZE))"
    by (simp add: valid_candidates_def subseq_map)
  with rank_filter_subseq [of "valid_candidates (index t PAGE_SIZE) E"] show ?thesis
    by (simp add: fetchSemanticFallback_def index_query_def)
qed

lemma filter_is_Extra_take:
  "filter is_Extra (take n (map Row rs @ map Extra es)) = map Extra (take (n - length rs) es)"
  by (simp add: take_map filter_map comp_def)

theorem extras_truncated_by_merge:
  "let params = parseParams sp;
       fetched = fetchFromDb db (q params) (page params);
       extras = fst (semanticExtras index params fetched);
       result = fst (Home db index sp)
   in filter is_Extra (items result) =
        map Extra (take (PAGE_SIZE - length (rows fetched)) extras) \<and>
      length (filter is_Extra (items result)) \<le> PAGE_SIZE - length (rows fetched) \<and>
      fst (fetchSemanticFallback index calls t E) =
        rank_filter (valid_candidates (index t PAGE_SIZE) E) \<and>
      subseq (fst (fetchSemanticFallback index calls t E)) (map metadata (index t PAGE_SIZE))"
proof -
  have "fst (fetchSemanticFallback index calls t E) =
        rank_filter (valid_candidates (index t PAGE_SIZE) E)"
    by (simp add: fetchSemanticFallback_def index_query_def)
  moreover note fallback_subseq [of index calls t E]
  moreover have "filter is_Extra (items (fst (Home db index sp))) =
      map Extra (take (PAGE_SIZE - length (rows (fetchFromDb db (q (parseParams sp))
                                                   (page (parseParams sp)))))
                   (fst (semanticExtras index (parseParams sp)
                           (fetchFromDb db (q (parseParams sp)) (page (parseParams sp))))))"
    by (simp only: Home_items filter_is_Extra_take)
  ultimately show ?thesis
    unfolding Let_def by simp
qed

theorem extras_truncated_by_merge_witness:
  "filter is_Extra (items (fst (Home demo_store demo_index demo_request))) =
     [Extra (demo_metadata ''7'')] \<and>
   fst (fetchSemanticFallback demo_index [] ''loft'' {''1'', ''2''}) =
     [demo_metadata ''7'', demo_metadata ''8'']"
  using extras_truncated_by_merge [of demo_request demo_store demo_index "[]" "''loft''" "{''1'', ''2''}"]
  unfolding Let_def demo_fetched demo_extras
  by (simp add: PAGE_SIZE_def fallback_demo)

subsection \<open>The store's count\<close>

text \<open>
  C7. The total of the lexical fetch is meant to be the number of all matching rows,
  whichever page is requested: the query's own comment calls the window count the
  ``count of ALL matching rows, not just this page'', and the page component says that
  the total ``reflects all pages''. It is read from the first row of the page, so on a page
  past the end it is 0: the small catalogue has two apartments, both matching, and the
  fetch of page 2 returns no rows and a total of 0, which the page then shows.
\<close>

theorem dbTotal_zero_past_the_end:
  "length (matching demo_store None) = 2 \<and>
   rows (fetchFromDb demo_store None 2) = [] \<and>
   dbTotal (fetchFromDb demo_store None 2) = 0 \<and>
   total (fst (Home demo_store demo_index [''page'' \<mapsto> Str ''2''])) = 0"
proof -
  have p: "parseParams [''page'' \<mapsto> Str ''2''] = \<lparr> q = None, page = 2, semanticSearch = False \<rparr>"
    by (simp add: parseParams_def all_digits_def is_digit_def parseInt_def
          digit_value_def)
  have f: "fetchFromDb demo_store None 2 = \<lparr> rows = [], dbTotal = 0 \<rparr>"
    by (simp add: fetchFromDb_def matching_def demo_store_def select_with_total_def PAGE_SIZE_def)
  have "total (fst (Home demo_store demo_index [''page'' \<mapsto> Str ''2''])) = 0"
    by (simp add: Home_def Let_def p f semanticExtras_def split_def)
  moreover have "length (matching demo_store None) = 2"
    by (simp add: matching_def demo_store_def)
  ultimately show ?thesis
    by (simp add: f)
qed

subsection \<open>The ranking filter\<close>

lemma zip_upt_nth: "(r, i) \<in> set (zip xs [0 ..< length xs]) \<Longrightarrow> r = xs ! i \<and> i < length xs"
  by (auto simp: set_zip)

lemma map_filter_zip_nths:
  "map (\<lambda>(r, i). f r) (filter (\<lambda>(r, i). P r i) (zip xs [0 ..< length xs])) =
   map f (nths xs {i. P (xs ! i) i})"
proof -
  have "filter (\<lambda>(r, i). P r i) (zip xs [0 ..< length xs]) =
        filter (\<lambda>p. snd p \<in> {i. P (xs ! i) i}) (zip xs [0 ..< length xs])"
    by (rule filter_cong) (auto dest: zip_upt_nth)
  moreover have "(\<lambda>(r, i). f r) = f \<circ> fst"
    by (simp add: fun_eq_iff)
  ultimately show ?thesis
    by (simp add: nths_def)
qed

lemma score_ge_iff: "score_ge sc x = (\<exists>s. sc = Some s \<and> x \<le> s)"
  by (cases sc) (simp_all add: score_ge_def)

text \<open>The scores \<^verbatim>\<open>0.9\<close>, \<^verbatim>\<open>0.95\<close>, \<^verbatim>\<open>0.85\<close>, \<^verbatim>\<open>0.3\<close>: the thresholds are about 0.75, 0.85,
  0.95 and 1.\<close>

lemma rank_filter_four:
  assumes "map score valid =
     [Some (round_double 0.9), Some (round_double 0.95), Some (round_double 0.85),
      Some (round_double 0.3)]"
  shows "rank_filter valid = [metadata (valid ! 0), metadata (valid ! 1)]"
proof -
  from assms have "length (map score valid) = 4"
    by simp
  then have "length valid = 4"
    by simp
  then obtain a b c d where v: "valid = [a, b, c, d]"
    by (auto simp: length_Suc_conv numeral_eq_Suc)
  define s0 where "s0 = round_double 0.9"
  define s1 where "s1 = round_double 0.95"
  define s2 where "s2 = round_double 0.85"
  define s3 where "s3 = round_double 0.3"
  from assms have sc: "score a = Some s0" "score b = Some s1" "score c = Some s2" "score d = Some s3"
    by (simp_all add: v s0_def s1_def s2_def s3_def)
  have s0: "9 / 10 - 1 / 1000000 \<le> s0" "s0 \<le> 9 / 10 + 1 / 1000000"
    and s1: "19 / 20 - 1 / 1000000 \<le> s1"
    and s2: "s2 \<le> 17 / 20 + 1 / 1000000"
    and s3: "s3 \<le> 3 / 10 + 1 / 1000000"
    using score_within by (simp_all add: s0_def s1_def s2_def s3_def)
  have best: "\<bar>s0\<bar> \<le> 1"
    using s0 by simp
  have "min 1 (max (1 / 2) (s0 - 3 / 20) + 0 / 10) + 1 / 1000000 \<le> s0"
    using s0 by (simp add: min_def max_def)
  then have p0: "score_ge (Some s0)
      (min 1 (fl_add (max ABSOLUTE_MIN (fl_sub s0 SCORE_DROP_TOLERANCE)) (fl_mul 0 RANK_INCREMENT)))"
    using best by (intro passes_near) simp_all
  have "min 1 (max (1 / 2) (s0 - 3 / 20) + 1 / 10) + 1 / 1000000 \<le> s1"
    using s0 s1 by (simp add: min_def max_def)
  then have p1: "score_ge (Some s1)
      (min 1 (fl_add (max ABSOLUTE_MIN (fl_sub s0 SCORE_DROP_TOLERANCE)) (fl_mul 1 RANK_INCREMENT)))"
    using best by (intro passes_near) simp_all
  have "s2 < min 1 (max (1 / 2) (s0 - 3 / 20) + 2 / 10) - 1 / 1000000"
    using s0 s2 by (simp add: min_def max_def)
  then have p2: "\<not> score_ge (Some s2)
      (min 1 (fl_add (max ABSOLUTE_MIN (fl_sub s0 SCORE_DROP_TOLERANCE)) (fl_mul 2 RANK_INCREMENT)))"
    using best by (intro fails_near) simp_all
  have "s3 < min 1 (max (1 / 2) (s0 - 3 / 20) + 3 / 10) - 1 / 1000000"
    using s0 s3 by (simp add: min_def max_def)
  then have p3: "\<not> score_ge (Some s3)
      (min 1 (fl_add (max ABSOLUTE_MIN (fl_sub s0 SCORE_DROP_TOLERANCE)) (fl_mul 3 RANK_INCREMENT)))"
    using best by (intro fails_near) simp_all
  show ?thesis
    unfolding v rank_filter_4 Let_def sc
    using p0 p1 p2 p3 by simp
qed

text \<open>
  C3. All arithmetic is the program's: \<open>fl_sub\<close>, \<open>fl_mul\<close> and \<open>fl_add\<close> are \<^verbatim>\<open>-\<close>, \<^verbatim>\<open>*\<close> and
  \<^verbatim>\<open>+\<close> on doubles, and \<open>round_double 0.15\<close>, \<open>round_double 0.1\<close> are the literals \<^verbatim>\<open>0.15\<close>
  and \<^verbatim>\<open>0.1\<close>. With \<open>bestScore\<close> the score of the first candidate left after the id and
  shape filters, the fallback returns the metadata of exactly the candidates at the
  positions \<open>i\<close> (counted from 0, in the order received, nothing re-sorted) whose score is
  at least \<^verbatim>\<open>min(1, max(0.5, bestScore - 0.15) + i * 0.1)\<close>, in that order. For the scores
  \<^verbatim>\<open>0.9\<close>, \<^verbatim>\<open>0.95\<close>, \<^verbatim>\<open>0.85\<close>, \<^verbatim>\<open>0.3\<close> these are the positions 0 and 1.
\<close>

theorem rank_filter_threshold:
  "fst (fetchSemanticFallback index calls t E) =
     rank_filter (valid_candidates (index t PAGE_SIZE) E) \<and>
   rank_filter valid =
     (let bestScore = (case valid of [] \<Rightarrow> 0
                       | r0 # _ \<Rightarrow> (case score r0 of None \<Rightarrow> 0 | Some s \<Rightarrow> s));
          baseMin = max 0.5 (fl_sub bestScore (round_double 0.15))
      in map metadata
           (nths valid {i. \<exists>s. score (valid ! i) = Some s \<and>
                          min 1 (fl_add baseMin (fl_mul (real i) (round_double 0.1))) \<le> s})) \<and>
   (map score valid =
      [Some (round_double 0.9), Some (round_double 0.95), Some (round_double 0.85),
       Some (round_double 0.3)] \<longrightarrow>
      rank_filter valid = [metadata (valid ! 0), metadata (valid ! 1)])"
proof -
  have a: "fst (fetchSemanticFallback index calls t E) =
        rank_filter (valid_candidates (index t PAGE_SIZE) E)"
    by (simp add: fetchSemanticFallback_def index_query_def)
  have b: "rank_filter valid =
     (let bestScore = (case valid of [] \<Rightarrow> 0
                       | r0 # _ \<Rightarrow> (case score r0 of None \<Rightarrow> 0 | Some s \<Rightarrow> s));
          baseMin = max 0.5 (fl_sub bestScore (round_double 0.15))
      in map metadata
           (nths valid {i. \<exists>s. score (valid ! i) = Some s \<and>
                          min 1 (fl_add baseMin (fl_mul (real i) (round_double 0.1))) \<le> s}))"
  proof (cases valid)
    case Nil
    then show ?thesis by (simp add: rank_filter_def)
  next
    case (Cons r0 rest)
    define B where "B = max 0.5 (fl_sub (case score r0 of None \<Rightarrow> 0 | Some s \<Rightarrow> s) (round_double 0.15))"
    have "rank_filter valid =
        map (\<lambda>(r, i). metadata r)
          (filter (\<lambda>(r, i). score_ge (score r) (min 1 (fl_add B (fl_mul (real i) (round_double 0.1)))))
             (zip valid [0 ..< length valid]))"
      unfolding rank_filter_def Let_def Cons B_def
      by (simp only: list.case ABSOLUTE_MIN_def SCORE_DROP_TOLERANCE_def RANK_INCREMENT_def)
    also have "\<dots> = map metadata
        (nths valid {i. score_ge (score (valid ! i))
                          (min 1 (fl_add B (fl_mul (real i) (round_double 0.1))))})"
      by (rule map_filter_zip_nths)
    finally show ?thesis
      unfolding Let_def Cons list.case B_def [symmetric] score_ge_iff .
  qed
  have c: "map score valid =
      [Some (round_double 0.9), Some (round_double 0.95), Some (round_double 0.85),
       Some (round_double 0.3)] \<longrightarrow>
      rank_filter valid = [metadata (valid ! 0), metadata (valid ! 1)]"
    by (rule impI) (rule rank_filter_four)
  show ?thesis
    by (rule conjI [OF a conjI [OF b c]])
qed

text \<open>Four candidates with the scores of the example.\<close>

theorem rank_filter_threshold_witness:
  "map score
     [\<lparr> vector_id = StringId ''a'', score = Some (round_double 0.9), metadata = demo_metadata ''a'' \<rparr>,
      \<lparr> vector_id = StringId ''b'', score = Some (round_double 0.95), metadata = demo_metadata ''b'' \<rparr>,
      \<lparr> vector_id = StringId ''c'', score = Some (round_double 0.85), metadata = demo_metadata ''c'' \<rparr>,
      \<lparr> vector_id = StringId ''d'', score = Some (round_double 0.3), metadata = demo_metadata ''d'' \<rparr>] =
     [Some (round_double 0.9), Some (round_double 0.95), Some (round_double 0.85),
      Some (round_double 0.3)] \<and>
   rank_filter
     [\<lparr> vector_id = StringId ''a'', score = Some (round_double 0.9), metadata = demo_metadata ''a'' \<rparr>,
      \<lparr> vector_id = StringId ''b'', score = Some (round_double 0.95), metadata = demo_metadata ''b'' \<rparr>,
      \<lparr> vector_id = StringId ''c'', score = Some (round_double 0.85), metadata = demo_metadata ''c'' \<rparr>,
      \<lparr> vector_id = StringId ''d'', score = Some (round_double 0.3), metadata = demo_metadata ''d'' \<rparr>] =
     [demo_metadata ''a'', demo_metadata ''b'']"
proof -
  define L where "L =
     [\<lparr> vector_id = StringId ''a'', score = Some (round_double 0.9), metadata = demo_metadata ''a'' \<rparr>,
      \<lparr> vector_id = StringId ''b'', score = Some (round_double 0.95), metadata = demo_metadata ''b'' \<rparr>,
      \<lparr> vector_id = StringId ''c'', score = Some (round_double 0.85), metadata = demo_metadata ''c'' \<rparr>,
      \<lparr> vector_id = StringId ''d'', score = Some (round_double 0.3), metadata = demo_metadata ''d'' \<rparr>]"
  have sc: "map score L =
      [Some (round_double 0.9), Some (round_double 0.95), Some (round_double 0.85),
       Some (round_double 0.3)]"
    by (simp add: L_def)
  note example =
    rank_filter_threshold [of demo_index "[]" "[]" "{}" L, THEN conjunct2, THEN conjunct2, THEN mp]
  have "rank_filter L = [metadata (L ! 0), metadata (L ! 1)]"
    using sc by (rule example)
  moreover have "metadata (L ! 0) = demo_metadata ''a''" "metadata (L ! 1) = demo_metadata ''b''"
    by (simp_all add: L_def)
  ultimately show ?thesis
    using sc unfolding L_def by simp
qed

text \<open>
  The rounding is part of the result. With the scores \<^verbatim>\<open>0.8\<close>, \<^verbatim>\<open>0.8\<close>, \<^verbatim>\<open>0.85\<close> the third
  threshold is \<^verbatim>\<open>0.65 + 0.2\<close>, which in doubles is \<^verbatim>\<open>0.8500000000000001\<close>, above the double
  \<^verbatim>\<open>0.85\<close>: the third candidate is dropped, although \<open>0.85 \<ge> max 0.5 (0.8 - 0.15) + 2 * 0.1\<close>
  over the decimals.
\<close>

lemma double_values:
  "SCORE_DROP_TOLERANCE = 5404319552844595 / 2 ^ 55"
  "RANK_INCREMENT = 3602879701896397 / 2 ^ 55"
  "round_double 0.8 = 3602879701896397 / 2 ^ 52"
  "round_double 0.85 = 7656119366529843 / 2 ^ 53"
proof -
  show "SCORE_DROP_TOLERANCE = 5404319552844595 / 2 ^ 55"
    unfolding SCORE_DROP_TOLERANCE_def
    by (subst round_double_eval [where e = "- 3"]) (simp_all add: round_even_def power_int_minus)
  show "RANK_INCREMENT = 3602879701896397 / 2 ^ 55"
    unfolding RANK_INCREMENT_def
    by (subst round_double_eval [where e = "- 4"]) (simp_all add: round_even_def power_int_minus)
  show "round_double 0.8 = 3602879701896397 / 2 ^ 52"
    by (subst round_double_eval [where e = "- 1"]) (simp_all add: round_even_def power_int_minus)
  show "round_double 0.85 = 7656119366529843 / 2 ^ 53"
    by (subst round_double_eval [where e = "- 1"]) (simp_all add: round_even_def power_int_minus)
qed

lemma rank_filter_rounds:
  assumes "map score valid =
     [Some (round_double 0.8), Some (round_double 0.8), Some (round_double 0.85)]"
  shows "rank_filter valid = [metadata (valid ! 0), metadata (valid ! 1)]"
    and "(0.85::real) \<ge> max 0.5 (0.8 - 0.15) + 2 * 0.1"
proof -
  from assms have "length (map score valid) = 3"
    by simp
  then have "length valid = 3"
    by simp
  then obtain a b c where v: "valid = [a, b, c]"
    by (auto simp: length_Suc_conv numeral_eq_Suc)
  from assms have sc: "score a = Some (round_double 0.8)" "score b = Some (round_double 0.8)"
    "score c = Some (round_double 0.85)"
    by (simp_all add: v)
  have y: "fl_sub (3602879701896397 / 2 ^ 52) (5404319552844595 / 2 ^ 55) =
      5854679515581645 / 2 ^ 53"
    unfolding fl_sub_def
    by (subst round_double_eval [where e = "- 1"]) (simp_all add: round_even_def power_int_minus)
  have B: "max ABSOLUTE_MIN (5854679515581645 / 2 ^ 53) = 5854679515581645 / 2 ^ 53"
    by (simp add: ABSOLUTE_MIN_def)
  have m1: "fl_mul 1 (3602879701896397 / 2 ^ 55) = 3602879701896397 / 2 ^ 55"
    unfolding fl_mul_def
    by (subst round_double_eval [where e = "- 4"]) (simp_all add: round_even_def power_int_minus)
  have m2: "fl_mul 2 (3602879701896397 / 2 ^ 55) = 3602879701896397 / 2 ^ 54"
    unfolding fl_mul_def
    by (subst round_double_eval [where e = "- 3"]) (simp_all add: round_even_def power_int_minus)
  have t0: "fl_add (5854679515581645 / 2 ^ 53) (fl_mul 0 (3602879701896397 / 2 ^ 55)) =
      5854679515581645 / 2 ^ 53"
    unfolding fl_add_def fl_mul_def
    by (simp add: round_double_zero)
       (subst round_double_eval [where e = "- 1"], simp_all add: round_even_def power_int_minus)
  have t1: "fl_add (5854679515581645 / 2 ^ 53) (3602879701896397 / 2 ^ 55) = 3 / 4"
    unfolding fl_add_def
    by (subst round_double_eval [where e = "- 1"]) (simp_all add: round_even_def power_int_minus)
  have t2: "fl_add (5854679515581645 / 2 ^ 53) (3602879701896397 / 2 ^ 54) =
      7656119366529844 / 2 ^ 53"
    unfolding fl_add_def
    by (subst round_double_eval [where e = "- 1"]) (simp_all add: round_even_def power_int_minus)
  show "rank_filter valid = [metadata (valid ! 0), metadata (valid ! 1)]"
    unfolding v rank_filter_3 Let_def sc option.case double_values y B m1 m2 t0 t1 t2
    by (simp add: score_ge_def)
  show "(0.85::real) \<ge> max 0.5 (0.8 - 0.15) + 2 * 0.1"
    by simp
qed

subsection \<open>Identifiers already on the page\<close>

lemma rank_filter_from_valid:
  assumes "e \<in> set (rank_filter valid)"
  shows "\<exists>r \<in> set valid. e = metadata r"
proof -
  from rank_filter_subseq [of valid] obtain N where "rank_filter valid = nths (map metadata valid) N"
    unfolding subseq_conv_nths by blast
  with assms have "e \<in> set (map metadata valid)"
    by (auto dest: in_set_nthsD)
  then show ?thesis by auto
qed

lemma fallback_from_index:
  "e \<in> set (fst (fetchSemanticFallback index calls t E)) \<Longrightarrow>
   \<exists>r \<in> set (index t PAGE_SIZE).
      e = metadata r \<and> id_string (vector_id r) \<notin> E \<and> isApartmentMetadata e"
  by (auto simp: fetchSemanticFallback_def index_query_def valid_candidates_def
        dest!: rank_filter_from_valid)

lemma semanticExtras_from_index:
  assumes "e \<in> set (fst (semanticExtras index params fetched))"
  shows "\<exists>t. \<exists>r \<in> set (index t PAGE_SIZE).
           e = metadata r \<and> id_string (vector_id r) \<notin> set (map id' (rows fetched)) \<and>
           isApartmentMetadata e"
proof (cases "semanticSearch params \<and> truthy (q params) \<and> length (rows fetched) < PAGE_SIZE")
  case True
  with assms show ?thesis
    unfolding semanticExtras_def by (auto dest!: fallback_from_index)
next
  case False
  with assms show ?thesis
    unfolding semanticExtras_def by auto
qed

lemma Extra_on_page:
  assumes "Extra e \<in> set (items (fst (Home db index sp)))"
  shows "e \<in> set (fst (semanticExtras index (parseParams sp)
                         (fetchFromDb db (q (parseParams sp)) (page (parseParams sp)))))"
proof -
  from assms have "Extra e \<in> set (map Row (rows (fetchFromDb db (q (parseParams sp)) (page (parseParams sp)))) @
        map Extra (fst (semanticExtras index (parseParams sp)
                          (fetchFromDb db (q (parseParams sp)) (page (parseParams sp))))))"
    unfolding Home_items by (rule in_set_takeD)
  then show ?thesis by auto
qed

lemma clash_home:
  "items (fst (Home demo_store clash_index demo_request)) =
     [Row (demo_row ''1''), Row (demo_row ''2''), Extra (demo_metadata ''1'')]"
proof -
  have "fetchSemanticFallback clash_index [] ''loft'' {''1'', ''2''} =
          ([demo_metadata ''1''], [(''loft'', PAGE_SIZE)])"
    using score_within(1)
    by (simp add: fetchSemanticFallback_def index_query_def clash_index_def valid_candidates_def
          isApartmentMetadata_demo rank_filter_single [where s = "round_double 0.9"])
  then have "semanticExtras clash_index (parseParams demo_request)
               \<lparr> rows = [demo_row ''1'', demo_row ''2''], dbTotal = 2 \<rparr> =
             ([demo_metadata ''1''], [(''loft'', PAGE_SIZE)])"
    by (simp add: semanticExtras_def parseParams_demo truthy_def PAGE_SIZE_def demo_row_def)
  then show ?thesis
    unfolding Home_items demo_fetched by (simp add: PAGE_SIZE_def)
qed

text \<open>
  C8 as stated fails: the filter compares the id of the index record, not the id inside
  its metadata. When record \<^verbatim>\<open>v1\<close> carries the metadata of apartment \<^verbatim>\<open>1\<close>, which the
  store has returned, identifier \<^verbatim>\<open>1\<close> is on the page twice.
\<close>

theorem lexical_id_repeated_by_extra:
  "map item_id (items (fst (Home demo_store clash_index demo_request))) =
     [JStr ''1'', JStr ''2'', JStr ''1''] \<and>
   map is_Extra (items (fst (Home demo_store clash_index demo_request))) =
     [False, False, True]"
  by (simp add: clash_home demo_row_def demo_metadata_def)

text \<open>
  C8, amended. Every candidate whose record id, as a string, equals the id of a row of
  the page is discarded before the merge: each semantic extra on the page is the metadata
  of a record whose id is not among the rows' ids. When every record of the index carries
  its own id in its metadata, no identifier of a row appears again through an extra.
\<close>

theorem extras_skip_known_record_ids:
  "let params = parseParams sp;
       fetched = fetchFromDb db (q params) (page params);
       ids = set (map id' (rows fetched));
       result = fst (Home db index sp)
   in (\<forall>r \<in> set (valid_candidates res ids). id_string (vector_id r) \<notin> ids) \<and>
      (\<forall>e. Extra e \<in> set (items result) \<longrightarrow>
         (\<exists>t. \<exists>r \<in> set (index t PAGE_SIZE). e = metadata r \<and> id_string (vector_id r) \<notin> ids)) \<and>
      ((\<forall>t k. \<forall>r \<in> set (index t k). get_prop (metadata r) ''id'' = JStr (id_string (vector_id r))) \<longrightarrow>
         (\<forall>e. Extra e \<in> set (items result) \<longrightarrow>
            item_id (Extra e) \<notin> item_id ` Row ` set (rows fetched)))"
proof -
  define params where "params = parseParams sp"
  define fetched where "fetched = fetchFromDb db (q params) (page params)"
  define ids where "ids = set (map id' (rows fetched))"
  have a: "\<forall>r \<in> set (valid_candidates res ids). id_string (vector_id r) \<notin> ids"
    by (simp add: valid_candidates_def)
  have b: "\<exists>t. \<exists>r \<in> set (index t PAGE_SIZE). e = metadata r \<and> id_string (vector_id r) \<notin> ids"
    if "Extra e \<in> set (items (fst (Home db index sp)))" for e
  proof -
    from that have "e \<in> set (fst (semanticExtras index params fetched))"
      unfolding params_def fetched_def by (rule Extra_on_page)
    from semanticExtras_from_index [OF this] show ?thesis
      unfolding ids_def by blast
  qed
  have c: "item_id (Extra e) \<notin> item_id ` Row ` set (rows fetched)"
    if own: "\<forall>t k. \<forall>r \<in> set (index t k). get_prop (metadata r) ''id'' = JStr (id_string (vector_id r))"
      and on_page: "Extra e \<in> set (items (fst (Home db index sp)))" for e
  proof -
    from b [OF on_page] obtain t r where r: "r \<in> set (index t PAGE_SIZE)" "e = metadata r"
      "id_string (vector_id r) \<notin> ids"
      by blast
    with own have "item_id (Extra e) = JStr (id_string (vector_id r))"
      by simp
    moreover have "item_id ` Row ` set (rows fetched) = JStr ` ids"
      by (auto simp: ids_def image_iff)
    ultimately show ?thesis
      using r(3) by auto
  qed
  show ?thesis
    unfolding Let_def params_def [symmetric] fetched_def [symmetric] ids_def [symmetric]
    using a b c by blast
qed

theorem extras_skip_known_record_ids_witness:
  "get_prop (metadata \<lparr> vector_id = StringId ''7'', score = Some (round_double 0.9), metadata = demo_metadata ''7'' \<rparr>) ''id'' = JStr ''7'' \<and>
   get_prop (metadata \<lparr> vector_id = StringId ''8'', score = Some (round_double 0.95), metadata = demo_metadata ''8'' \<rparr>) ''id'' = JStr ''8'' \<and>
   Extra (demo_metadata ''7'') \<in> set (items (fst (Home demo_store demo_index demo_request))) \<and>
   item_id (Extra (demo_metadata ''7'')) \<notin> item_id ` Row ` set [demo_row ''1'', demo_row ''2'']"
proof -
  have own: "\<forall>t k. \<forall>r \<in> set (demo_index t k).
      get_prop (metadata r) ''id'' = JStr (id_string (vector_id r))"
    by (simp add: demo_index_def demo_metadata_def)
  have on_page: "Extra (demo_metadata ''7'') \<in> set (items (fst (Home demo_store demo_index demo_request)))"
    by (simp add: demo_home)
  from extras_skip_known_record_ids
         [where sp = demo_request and db = demo_store and index = demo_index and res = "[]"]
  have "item_id (Extra (demo_metadata ''7'')) \<notin> item_id ` Row ` set [demo_row ''1'', demo_row ''2'']"
    unfolding Let_def demo_fetched using own on_page by simp
  then show ?thesis
    using on_page by (simp add: demo_metadata_def)
qed

subsection \<open>The shape guard\<close>

lemma typeof_string: "(typeof v = ''string'') = (\<exists>s. v = JStr s)"
  by (cases v) simp_all

lemma typeof_number: "(typeof v = ''number'') = (\<exists>x. v = JNum x)"
  by (cases v) simp_all

lemma get_prop_JObj: "(get_prop (JObj m) k = v \<and> v \<noteq> JUndefined) = (m k = Some v \<and> v \<noteq> JUndefined)"
  by (cases "m k") auto

lemma guard_JObj:
  "isApartmentMetadata (JObj m) =
     (\<exists>a b c x. m ''id'' = Some (JStr a) \<and> m ''name'' = Some (JStr b) \<and>
        m ''imageId'' = Some (JStr c) \<and> m ''price'' = Some (JNum x))"
  by (auto simp: isApartmentMetadata_def typeof_string typeof_number split: option.splits)

lemma guard_iff:
  "isApartmentMetadata val =
     (\<exists>m a b c x. val = JObj m \<and> m ''id'' = Some (JStr a) \<and> m ''name'' = Some (JStr b) \<and>
        m ''imageId'' = Some (JStr c) \<and> m ''price'' = Some (JNum x))"
proof (cases val)
  case (JObj m)
  then show ?thesis by (simp add: guard_JObj)
next
  case (JArr xs)
  then show ?thesis
    by (simp add: isApartmentMetadata_def all_digits_def is_digit_def)
qed (simp_all add: isApartmentMetadata_def)

lemma single_candidate_surfaces:
  assumes "index t PAGE_SIZE = [r]" and "isApartmentMetadata (metadata r)"
    and "id_string (vector_id r) \<notin> E" and "score r = Some s" and "0.5 \<le> s"
  shows "fst (fetchSemanticFallback index calls t E) = [metadata r]"
proof -
  from assms(5) have "1 / 2 \<le> s"
    by simp
  with assms(4) have "rank_filter [r] = [metadata r]"
    by (rule rank_filter_single)
  with assms(1-3) show ?thesis
    by (simp add: fetchSemanticFallback_def index_query_def valid_candidates_def)
qed

text \<open>
  C10. The guard accepts a value exactly when it is an object whose \<^verbatim>\<open>id\<close>, \<^verbatim>\<open>name\<close> and
  \<^verbatim>\<open>imageId\<close> are strings and whose \<^verbatim>\<open>price\<close> is a number (\<^verbatim>\<open>null\<close>, arrays and primitive
  values are rejected). It never reads \<^verbatim>\<open>description\<close>: removing the field or giving it
  any value leaves the verdict unchanged, and such a candidate is returned by the
  fallback like any other, for instance when it is the only one and scores 0.5 or more.
\<close>

theorem guard_ignores_description:
  "isApartmentMetadata val =
     (\<exists>m a b c x. val = JObj m \<and> m ''id'' = Some (JStr a) \<and> m ''name'' = Some (JStr b) \<and>
        m ''imageId'' = Some (JStr c) \<and> m ''price'' = Some (JNum x)) \<and>
   isApartmentMetadata (JObj (m(''description'' := d))) = isApartmentMetadata (JObj m) \<and>
   (index t PAGE_SIZE = [r] \<and> metadata r = JObj (m(''description'' := d)) \<and>
    isApartmentMetadata (JObj m) \<and> id_string (vector_id r) \<notin> E \<and>
    score r = Some s \<and> 0.5 \<le> s \<longrightarrow>
      fst (fetchSemanticFallback index calls t E) = [JObj (m(''description'' := d))])"
proof -
  have indep: "isApartmentMetadata (JObj (m(''description'' := d))) = isApartmentMetadata (JObj m)"
    by (simp add: guard_JObj)
  have "fst (fetchSemanticFallback index calls t E) = [JObj (m(''description'' := d))]"
    if "index t PAGE_SIZE = [r]" "metadata r = JObj (m(''description'' := d))"
      "isApartmentMetadata (JObj m)" "id_string (vector_id r) \<notin> E" "score r = Some s" "0.5 \<le> s"
    using single_candidate_surfaces [of index t r E s calls] that indep by simp
  with indep guard_iff [of val] show ?thesis
    by blast
qed

lemma odd_home:
  "items (fst (Home demo_store odd_index demo_request)) =
     [Row (demo_row ''1''), Row (demo_row ''2''), Extra odd_metadata]"
proof -
  have "isApartmentMetadata odd_metadata"
    by (simp add: guard_JObj odd_metadata_def)
  then have "fetchSemanticFallback odd_index [] ''loft'' {''1'', ''2''} =
          ([odd_metadata], [(''loft'', PAGE_SIZE)])"
    using score_within(9)
    by (simp add: fetchSemanticFallback_def index_query_def odd_index_def valid_candidates_def
          rank_filter_single [where s = "round_double 0.8"])
  then have "semanticExtras odd_index (parseParams demo_request)
               \<lparr> rows = [demo_row ''1'', demo_row ''2''], dbTotal = 2 \<rparr> =
             ([odd_metadata], [(''loft'', PAGE_SIZE)])"
    by (simp add: semanticExtras_def parseParams_demo truthy_def PAGE_SIZE_def demo_row_def)
  then show ?thesis
    unfolding Home_items demo_fetched by (simp add: PAGE_SIZE_def)
qed

theorem guard_ignores_description_witness:
  "odd_metadata =
     JObj ([''id'' \<mapsto> JStr ''9'', ''name'' \<mapsto> JStr ''Loft'', ''imageId'' \<mapsto> JStr ''img'',
            ''price'' \<mapsto> JNum 700](''description'' := Some (JNum 5))) \<and>
   isApartmentMetadata odd_metadata \<and>
   fst (fetchSemanticFallback odd_index [] ''loft'' {''1'', ''2''}) = [odd_metadata] \<and>
   items (fst (Home demo_store odd_index demo_request)) =
     [Row (demo_row ''1''), Row (demo_row ''2''), Extra odd_metadata]"
proof -
  define m where "m = [''id'' \<mapsto> JStr ''9'', ''name'' \<mapsto> JStr ''Loft'', ''imageId'' \<mapsto> JStr ''img'',
                       ''price'' \<mapsto> JNum 700]"
  define r where "r = \<lparr> vector_id = StringId ''9'', score = Some (round_double 0.8), metadata = odd_metadata \<rparr>"
  note th = guard_ignores_description
    [where val = "JObj m" and m = m and d = "Some (JNum 5)" and index = odd_index
       and t = "''loft''" and r = r and E = "{''1'', ''2''}" and s = "round_double 0.8" and calls = "[]"]
  have odd: "odd_metadata = JObj (m(''description'' := Some (JNum 5)))"
    by (simp add: odd_metadata_def m_def)
  have base: "isApartmentMetadata (JObj m)"
    using th by (simp add: m_def)
  have "isApartmentMetadata odd_metadata"
    using th base by (simp add: odd)
  moreover have "fst (fetchSemanticFallback odd_index [] ''loft'' {''1'', ''2''}) = [odd_metadata]"
    using th base score_within(9) by (simp add: odd [symmetric] odd_index_def r_def)
  ultimately show ?thesis
    using odd by (simp add: odd_home m_def)
qed

subsection \<open>The normalizer\<close>

lemma leading_ws_Nil: "leading_ws [] = 0"
  by (simp add: leading_ws_def white_space_def)

lemma trailing_ws_Nil: "trailing_ws [] = 0"
  by (simp add: trailing_ws_def white_space_def)

lemma trim_Nil: "trim [] = []"
  by (simp add: trim_id leading_ws_Nil trailing_ws_Nil)

lemma white_space_nonempty: "w \<in> set white_space \<Longrightarrow> w \<noteq> []"
proof -
  have "list_all (\<lambda>w. w \<noteq> []) white_space"
    by (simp add: white_space_def)
  then show "w \<in> set white_space \<Longrightarrow> w \<noteq> []"
    by (simp add: list_all_iff)
qed

lemma leading_ws_all: "list_all (\<lambda>w. leading_ws (w @ s) = length w) white_space"
  by (simp add: white_space_def leading_ws_def)

lemma leading_ws_append: "w \<in> set white_space \<Longrightarrow> leading_ws (w @ s) = length w"
  using leading_ws_all [of s] by (simp add: list_all_iff)

lemma trimStart_ws: "w \<in> set white_space \<Longrightarrow> trimStart (w @ s) = trimStart s"
  by (subst trimStart.simps) (simp add: leading_ws_append white_space_nonempty)

lemma whitespace_only_trimStart: "whitespace_only s \<Longrightarrow> trimStart s = []"
  by (induction rule: whitespace_only.induct) (simp_all add: trimStart_ws trimStart_id leading_ws_Nil)

lemma whitespace_only_trim: "whitespace_only s \<Longrightarrow> trim s = []"
  by (simp add: trim_def whitespace_only_trimStart trimEnd_id trailing_ws_Nil)

lemma page_default:
  assumes "\<And>s. raw ''page'' = Some (Str s) \<Longrightarrow> \<not> all_digits s \<or> parseInt s < 1"
  shows "page (parseParams raw) = 1"
proof (cases "raw ''page''")
  case None
  then show ?thesis by (simp add: parseParams_def all_digits_def Let_def)
next
  case (Some v)
  show ?thesis
  proof (cases v)
    case (Str s)
    with Some assms [of s] show ?thesis
      by (auto simp: parseParams_def Let_def)
  next
    case (Arr xs)
    with Some show ?thesis by (simp add: parseParams_def all_digits_def Let_def)
  qed
qed

text \<open>
  C9. The normalizer is a total function of the raw parameters: it has no failing branch
  and always returns a descriptor, whose page is at least 1. A page that is absent, an
  array, not of the form \<^verbatim>\<open>^\d+$\<close>, or below 1 gives page 1; a valid one gives its value.
  A query that is absent, an empty array, or a string of white space only (the empty
  string included) gives no text; a string gives its trimmed form, and an array its first
  element, trimmed (no text when that is empty).
\<close>

theorem parseParams_defaults:
  "1 \<le> page (parseParams raw) \<and>
   ((\<forall>s. raw ''page'' = Some (Str s) \<longrightarrow> \<not> all_digits s \<or> parseInt s < 1) \<longrightarrow>
      page (parseParams raw) = 1) \<and>
   (raw ''page'' = Some (Str s) \<and> all_digits s \<and> 1 \<le> parseInt s \<longrightarrow>
      page (parseParams raw) = parseInt s) \<and>
   (raw ''query'' = None \<or> raw ''query'' = Some (Arr []) \<or>
    (\<exists>w. raw ''query'' = Some (Str w) \<and> whitespace_only w) \<longrightarrow>
      q (parseParams raw) = None) \<and>
   (raw ''query'' = Some (Str t) \<longrightarrow>
      q (parseParams raw) = (if trim t = [] then None else Some (trim t))) \<and>
   (raw ''query'' = Some (Arr (x # xs)) \<longrightarrow>
      q (parseParams raw) = (if trim x = [] then None else Some (trim x)))"
proof -
  have a: "1 \<le> page (parseParams raw)"
    by (simp add: parseParams_def Let_def)
  have b: "(\<forall>s. raw ''page'' = Some (Str s) \<longrightarrow> \<not> all_digits s \<or> parseInt s < 1) \<longrightarrow>
      page (parseParams raw) = 1"
    using page_default [of raw] by blast
  have c: "raw ''page'' = Some (Str s) \<and> all_digits s \<and> 1 \<le> parseInt s \<longrightarrow>
      page (parseParams raw) = parseInt s"
    by (simp add: parseParams_def Let_def)
  have d: "raw ''query'' = None \<or> raw ''query'' = Some (Arr []) \<or>
    (\<exists>w. raw ''query'' = Some (Str w) \<and> whitespace_only w) \<longrightarrow> q (parseParams raw) = None"
    by (auto simp: parseParams_def Let_def trim_Nil whitespace_only_trim)
  have e: "raw ''query'' = Some (Str t) \<longrightarrow>
      q (parseParams raw) = (if trim t = [] then None else Some (trim t))"
    by (simp add: parseParams_def Let_def)
  have f: "raw ''query'' = Some (Arr (x # xs)) \<longrightarrow>
      q (parseParams raw) = (if trim x = [] then None else Some (trim x))"
    by (simp add: parseParams_def Let_def)
  show ?thesis
    by (rule conjI [OF a conjI [OF b conjI [OF c conjI [OF d conjI [OF e f]]]]])
qed

lemma trim_x: "trim '' x '' = ''x''"
proof -
  have "leading_ws '' x '' = 1" "leading_ws ''x '' = 0"
    by (simp_all add: leading_ws_def white_space_def)
  then have "trimStart '' x '' = ''x ''"
    by (subst trimStart.simps) (simp add: trimStart_id)
  moreover have "trailing_ws ''x '' = 1" "trailing_ws ''x'' = 0"
    by (simp_all add: trailing_ws_def white_space_def suffix_to_prefix)
  then have "trimEnd ''x '' = ''x''"
    by (subst trimEnd.simps) (simp add: trimEnd_id)
  ultimately show ?thesis
    by (simp add: trim_def)
qed

lemma whitespace_only_blank: "whitespace_only [CHR 0x20, CHR 0xC2, CHR 0xA0, CHR 0x09]"
proof -
  have "whitespace_only ([CHR 0x20] @ [CHR 0xC2, CHR 0xA0] @ [CHR 0x09] @ [])"
    by (intro whitespace_only.intros) (simp_all add: white_space_def)
  then show ?thesis by simp
qed

theorem parseParams_defaults_witness:
  "page (parseParams [''page'' \<mapsto> Str ''-3'', ''query'' \<mapsto> Str [CHR 0x20, CHR 0xC2, CHR 0xA0, CHR 0x09]]) = 1 \<and>
   q (parseParams [''page'' \<mapsto> Str ''-3'', ''query'' \<mapsto> Str [CHR 0x20, CHR 0xC2, CHR 0xA0, CHR 0x09]]) = None \<and>
   page (parseParams [''page'' \<mapsto> Str ''0'']) = 1 \<and>
   q (parseParams [''page'' \<mapsto> Str ''0'']) = None \<and>
   page (parseParams [''page'' \<mapsto> Str ''12'', ''query'' \<mapsto> Arr ['' x '', ''y'']]) = 12 \<and>
   q (parseParams [''page'' \<mapsto> Str ''12'', ''query'' \<mapsto> Arr ['' x '', ''y'']]) = Some ''x'' \<and>
   q (parseParams [''query'' \<mapsto> Arr []]) = None"
proof -
  define blank where "blank = [CHR 0x20, CHR 0xC2, CHR 0xA0, CHR 0x09]"
  have d3: "\<not> all_digits ''-3''"
    by (simp add: all_digits_def is_digit_def)
  have d0: "all_digits ''0''" "parseInt ''0'' = 0"
    by (simp_all add: all_digits_def is_digit_def parseInt_def digit_value_def)
  have d12: "all_digits ''12''" "parseInt ''12'' = 12"
    by (simp_all add: all_digits_def is_digit_def parseInt_def digit_value_def)
  note r1 = parseParams_defaults [where raw = "[''page'' \<mapsto> Str ''-3'', ''query'' \<mapsto> Str blank]"]
  note r2 = parseParams_defaults [where raw = "[''page'' \<mapsto> Str ''0'']"]
  note r3 = parseParams_defaults [where raw = "[''page'' \<mapsto> Str ''12'', ''query'' \<mapsto> Arr ['' x '', ''y'']]"
      and s = "''12''" and x = "'' x ''" and xs = "[''y'']"]
  note r4 = parseParams_defaults [where raw = "[''query'' \<mapsto> Arr []]"]
  have "page (parseParams [''page'' \<mapsto> Str ''-3'', ''query'' \<mapsto> Str blank]) = 1"
    using r1 d3 by simp
  moreover have "q (parseParams [''page'' \<mapsto> Str ''-3'', ''query'' \<mapsto> Str blank]) = None"
    using r1 whitespace_only_blank by (simp add: blank_def)
  moreover have "page (parseParams [''page'' \<mapsto> Str ''0'']) = 1"
    using r2 d0 by simp
  moreover have "q (parseParams [''page'' \<mapsto> Str ''0'']) = None"
    using r2 by simp
  moreover have "page (parseParams [''page'' \<mapsto> Str ''12'', ''query'' \<mapsto> Arr ['' x '', ''y'']]) = 12"
    using r3 d12 by simp
  moreover have "q (parseParams [''page'' \<mapsto> Str ''12'', ''query'' \<mapsto> Arr ['' x '', ''y'']]) = Some ''x''"
    using r3 trim_x by simp
  moreover have "q (parseParams [''query'' \<mapsto> Arr []]) = None"
    using r4 by simp
  ultimately show ?thesis
    unfolding blank_def by blast
qed

subsection \<open>Decimal digits\<close>

lemma digits_all:
  "list_all (\<lambda>d. is_digit (digit_char d) \<and> digit_value (digit_char d) = d \<and>
                 unreserved (digit_char d)) [0 ..< 10]"
  by (simp add: upt_rec is_digit_def digit_value_def digit_char_def unreserved_def
        char_of_eq_iff)

lemma digit_char_props:
  assumes "d < 10"
  shows "is_digit (digit_char d)" and "digit_value (digit_char d) = d"
    and "unreserved (digit_char d)"
  using digits_all assms by (simp_all add: list_all_iff)

lemma parseInt_snoc: "parseInt (s @ [c]) = 10 * parseInt s + digit_value c"
  by (simp add: parseInt_def)

lemma decimal_props:
  "decimal n \<noteq> [] \<and> list_all is_digit (decimal n) \<and> list_all unreserved (decimal n) \<and>
   parseInt (decimal n) = n"
proof (induction n rule: decimal.induct)
  case (1 n)
  show ?case
  proof (cases "n < 10")
    case True
    then show ?thesis
      by (subst (1 2 3 4) decimal.simps) (simp add: digit_char_props parseInt_def)
  next
    case False
    have "n mod 10 < 10" by simp
    with False 1 show ?thesis
      by (subst (1 2 3 4) decimal.simps) (simp add: digit_char_props parseInt_snoc)
  qed
qed

lemma all_digits_decimal: "all_digits (decimal n)"
  using decimal_props [of n] by (simp add: all_digits_def)

lemma String_small: "n < 10 ^ 21 \<Longrightarrow> String n = decimal n"
  by (simp add: String_def)

subsection \<open>The query-string codec\<close>

lemma hex_all:
  "list_all (\<lambda>n. hex_value (hex_digit n) = Some n \<and> unreserved (hex_digit n)) [0 ..< 16]"
  by (simp add: upt_rec hex_value_def hex_digit_def is_digit_def unreserved_def)

lemma hex_digit_props:
  assumes "n < 16"
  shows "hex_value (hex_digit n) = Some n" and "unreserved (hex_digit n)"
  using hex_all assms by (simp_all add: list_all_iff)

lemma unreserved_plain:
  assumes "unreserved c"
  shows "c \<noteq> CHR ''+''" and "c \<noteq> CHR ''%''" and "c \<noteq> CHR ''&''" and "c \<noteq> CHR ''=''"
    and "c \<noteq> CHR ''#''" and "c \<noteq> CHR ''?''" and "c \<noteq> CHR '' ''"
  using assms by (auto simp: unreserved_def)

lemma percent_decode_plain: "c \<noteq> CHR ''%'' \<Longrightarrow> percent_decode (c # cs) = c # percent_decode cs"
proof (cases cs)
  case Nil
  then show ?thesis by simp
next
  case (Cons h t)
  assume "c \<noteq> CHR ''%''"
  then show ?thesis using Cons by (cases t) simp_all
qed

lemma percent_decode_escape:
  assumes "hex_value h = Some x" and "hex_value l = Some y"
  shows "percent_decode (CHR ''%'' # h # l # cs) = char_of (16 * x + y) # percent_decode cs"
  using assms by simp

lemma form_decode_Cons_plain:
  "c \<noteq> CHR ''%'' \<Longrightarrow> c \<noteq> CHR ''+'' \<Longrightarrow> form_decode (c # cs) = c # form_decode cs"
  by (simp add: form_decode_def percent_decode_plain)

lemma form_decode_encode_byte: "form_decode (encode_byte c @ rest) = c # form_decode rest"
proof -
  consider "c = CHR '' ''" | "c \<noteq> CHR '' ''" "unreserved c" | "c \<noteq> CHR '' ''" "\<not> unreserved c"
    by blast
  then show ?thesis
  proof cases
    case 1
    then show ?thesis
      by (simp add: encode_byte_def form_decode_def percent_decode_plain)
  next
    case 2
    then show ?thesis
      by (simp add: encode_byte_def form_decode_Cons_plain unreserved_plain)
  next
    case 3
    define n :: nat where "n = of_char c"
    have "n < 256"
      unfolding n_def by (rule nat_of_char_less_256)
    then have hi: "n div 16 < 16"
      by simp
    have lo: "n mod 16 < 16" by simp
    have plain: "hex_digit (n div 16) \<noteq> CHR ''+''" "hex_digit (n mod 16) \<noteq> CHR ''+''"
      using hex_digit_props(2) [OF hi] hex_digit_props(2) [OF lo] unreserved_plain(1) by blast+
    have "char_of (16 * (n div 16) + n mod 16) = c"
      by (simp add: n_def)
    then show ?thesis
      using 3 plain hex_digit_props(1) [OF hi] hex_digit_props(1) [OF lo]
      by (simp add: encode_byte_def form_decode_def n_def [symmetric])
  qed
qed

lemma form_decode_Nil: "form_decode [] = []"
  by (simp add: form_decode_def)

lemma form_decode_encode: "form_decode (form_encode s) = s"
  by (induction s) (simp_all add: form_encode_def form_decode_Nil form_decode_encode_byte)

lemma encode_byte_chars:
  "x \<in> set (encode_byte c) \<Longrightarrow> unreserved x \<or> x = CHR ''+'' \<or> x = CHR ''%''"
proof -
  have "of_char c div 16 < (16::nat)"
    by (rule less_mult_imp_div_less) simp
  moreover have "of_char c mod 16 < (16::nat)" by simp
  ultimately show "x \<in> set (encode_byte c) \<Longrightarrow> unreserved x \<or> x = CHR ''+'' \<or> x = CHR ''%''"
    using hex_digit_props(2) by (auto simp: encode_byte_def split: if_splits)
qed

lemma form_encode_chars:
  "x \<in> set (form_encode s) \<Longrightarrow> unreserved x \<or> x = CHR ''+'' \<or> x = CHR ''%''"
  by (auto simp: form_encode_def dest: encode_byte_chars)

lemma form_encode_free:
  "CHR ''&'' \<notin> set (form_encode s)" "CHR ''='' \<notin> set (form_encode s)"
  "CHR ''#'' \<notin> set (form_encode s)"
  by (auto dest!: form_encode_chars simp: unreserved_def)

lemma form_encode_unreserved: "list_all unreserved s \<Longrightarrow> form_encode s = s"
  by (induction s) (auto simp: form_encode_def encode_byte_def unreserved_plain)

lemma form_encode_Nil_iff: "(form_encode s = []) = (s = [])"
  by (cases s) (auto simp: form_encode_def encode_byte_def)


lemma split_on_plain: "d \<notin> set a \<Longrightarrow> split_on d a = [a]"
  by (induction a) auto

lemma split_on_append: "d \<notin> set a \<Longrightarrow> split_on d (a @ d # b) = a # split_on d b"
  by (induction a) auto

lemma pieces_of_join:
  assumes "\<forall>piece \<in> set ps. piece \<noteq> [] \<and> CHR ''&'' \<notin> set piece"
  shows "filter (\<lambda>piece. piece \<noteq> []) (split_on CHR ''&'' (join ''&'' ps)) = ps"
  using assms
proof (induction "''&''" ps rule: join.induct)
  case 1
  then show ?case by simp
next
  case (2 x)
  then show ?case by (simp add: split_on_plain)
next
  case (3 x y ys)
  then show ?case by (simp add: split_on_append)
qed

lemma join_chars: "c \<in> set (join sep ps) \<Longrightarrow> c \<in> set sep \<or> (\<exists>piece \<in> set ps. c \<in> set piece)"
  by (induction sep ps rule: join.induct) auto

lemma join_Nil_iff: "\<forall>piece \<in> set ps. piece \<noteq> [] \<Longrightarrow> (join sep ps = []) = (ps = [])"
  by (induction sep ps rule: join.induct) auto

lemma takeWhile_until: "d \<notin> set a \<Longrightarrow> takeWhile (\<lambda>c. c \<noteq> d) (a @ d # b) = a"
  by (induction a) auto

lemma dropWhile_until: "d \<notin> set a \<Longrightarrow> dropWhile (\<lambda>c. c \<noteq> d) (a @ d # b) = d # b"
  by (induction a) auto

lemma parse_pair_encoded:
  "parse_pair (form_encode k @ CHR ''='' # form_encode v) = (k, v)"
  using form_encode_free(2) [of k]
  by (simp add: parse_pair_def takeWhile_until dropWhile_until form_decode_encode)

lemma encoded_piece:
  "form_encode k @ ''='' @ form_encode v \<noteq> [] \<and>
   CHR ''&'' \<notin> set (form_encode k @ ''='' @ form_encode v) \<and>
   CHR ''#'' \<notin> set (form_encode k @ ''='' @ form_encode v)"
  using form_encode_free [of k] form_encode_free [of v] by simp

lemma parse_toString: "parse_query (toString params) = params"
proof -
  define ps where "ps = map (\<lambda>(k, v). form_encode k @ ''='' @ form_encode v) params"
  have "\<forall>piece \<in> set ps. piece \<noteq> [] \<and> CHR ''&'' \<notin> set piece"
    unfolding ps_def using encoded_piece by auto
  then have "filter (\<lambda>piece. piece \<noteq> []) (split_on CHR ''&'' (join ''&'' ps)) = ps"
    by (rule pieces_of_join)
  then have "parse_query (toString params) = map parse_pair ps"
    by (simp add: parse_query_def toString_def ps_def)
  also have "\<dots> = params"
    unfolding ps_def by (induction params) (auto simp: parse_pair_encoded)
  finally show ?thesis .
qed

lemma toString_no_hash: "CHR ''#'' \<notin> set (toString params)"
proof
  assume "CHR ''#'' \<in> set (toString params)"
  then have "CHR ''#'' \<in> set ''&'' \<or>
      (\<exists>piece \<in> set (map (\<lambda>(k, v). form_encode k @ ''='' @ form_encode v) params).
         CHR ''#'' \<in> set piece)"
    unfolding toString_def by (rule join_chars)
  then obtain k v where "CHR ''#'' \<in> set (form_encode k @ ''='' @ form_encode v)"
    by auto
  then show False
    using encoded_piece [of k v] by simp
qed

lemma url_query_href:
  "url_query (if toString params \<noteq> [] then ''/?'' @ toString params else ''/'') = toString params"
proof (cases "toString params = []")
  case True
  then show ?thesis by (simp add: url_query_def)
next
  case False
  have "\<forall>c \<in> set (toString params). c \<noteq> CHR ''#''"
    using toString_no_hash [of params] by auto
  then have "takeWhile (\<lambda>c. c \<noteq> CHR ''#'') (toString params) = toString params"
    by simp
  with False show ?thesis by (simp add: url_query_def)
qed

subsection \<open>The href and the way back\<close>

lemma buildHref_params:
  "buildHref p qtext sem =
     (let params = (case qtext of None \<Rightarrow> [] | Some s \<Rightarrow> if s = [] then [] else [(''query'', s)]) @
                   (if sem then [(''semanticSearch'', ''1'')] else []) @
                   (if 1 < p then [(''page'', String p)] else [])
      in if toString params \<noteq> [] then ''/?'' @ toString params else ''/'')"
  by (cases qtext) (simp_all add: buildHref_def Let_def)

lemma request_params_buildHref:
  "request_params (buildHref p qtext sem) =
     search_params
       ((case qtext of None \<Rightarrow> [] | Some s \<Rightarrow> if s = [] then [] else [(''query'', s)]) @
        (if sem then [(''semanticSearch'', ''1'')] else []) @
        (if 1 < p then [(''page'', String p)] else []))"
  unfolding buildHref_params Let_def request_params_def url_query_href parse_toString ..

lemma search_params_built:
  fixes qtext :: "string option" and sem paged :: bool and d :: string
  defines "params \<equiv>
       (case qtext of None \<Rightarrow> [] | Some s \<Rightarrow> if s = [] then [] else [(''query'', s)]) @
       (if sem then [(''semanticSearch'', ''1'')] else []) @
       (if paged then [(''page'', d)] else [])"
  shows "search_params params ''query'' =
           (case qtext of None \<Rightarrow> None | Some s \<Rightarrow> if s = [] then None else Some (Str s))"
    and "search_params params ''semanticSearch'' = (if sem then Some (Str ''1'') else None)"
    and "search_params params ''page'' = (if paged then Some (Str d) else None)"
  unfolding params_def
  by (cases qtext; cases sem; cases paged; simp add: search_params_def)+

lemma parseParams_round:
  assumes "qtext = None \<or> (\<exists>s. qtext = Some s \<and> s \<noteq> [] \<and> trim s = s)"
    and "all_digits d" and "1 \<le> parseInt d"
  shows "parseParams (search_params
       ((case qtext of None \<Rightarrow> [] | Some s \<Rightarrow> if s = [] then [] else [(''query'', s)]) @
        (if sem then [(''semanticSearch'', ''1'')] else []) @
        (if paged then [(''page'', d)] else []))) =
     \<lparr> q = qtext, page = (if paged then parseInt d else 1), semanticSearch = sem \<rparr>"
proof -
  have nd: "\<not> all_digits []"
    by (simp add: all_digits_def)
  show ?thesis
    unfolding parseParams_def Let_def search_params_built
    using assms nd by (cases qtext; cases sem; cases paged) (auto simp: trim_Nil)
qed

lemma digit_char_nth: "d < 10 \<Longrightarrow> digit_char d = ''0123456789'' ! d"
proof -
  have "list_all (\<lambda>d. digit_char d = ''0123456789'' ! d) [0 ..< 10]"
    by (simp add: upt_rec digit_char_def char_of_eq_iff)
  then show "d < 10 \<Longrightarrow> digit_char d = ''0123456789'' ! d"
    by (simp add: list_all_iff)
qed

lemma decimal_base: "n < 10 \<Longrightarrow> decimal n = [''0123456789'' ! n]"
  by (subst decimal.simps) (simp add: digit_char_nth)



text \<open>
  Below \<open>2\<^sup>5\<^sup>3\<close> every page is a double whose digits \<^verbatim>\<open>String\<close> prints in full, and the href
  leads back to the descriptor it was built from: the same text, the same flag and the
  same page, the pages 0 and 1 both read back as page 1.
\<close>

lemma buildHref_round_trip:
  assumes "qtext = None \<or> (\<exists>s. qtext = Some s \<and> s \<noteq> [] \<and> trim s = s)"
    and "p < 2 ^ 53"
  shows "parseParams (request_params (buildHref p qtext sem)) =
           \<lparr> q = qtext, page = max 1 p, semanticSearch = sem \<rparr>"
proof -
  have "(2::nat) ^ 53 < 10 ^ 21"
    by simp
  with assms(2) have "p < 10 ^ 21"
    by (rule less_trans)
  then have str: "String p = decimal p"
    by (rule String_small)
  have inv: "parseInt (decimal p) = p"
    using decimal_props [of p] by simp
  show ?thesis
  proof (cases "1 < p")
    case True
    then have "1 \<le> parseInt (decimal p)"
      by (simp add: inv)
    from parseParams_round [OF assms(1) all_digits_decimal this, of sem True]
    have "parseParams (search_params
       ((case qtext of None \<Rightarrow> [] | Some s \<Rightarrow> if s = [] then [] else [(''query'', s)]) @
        (if sem then [(''semanticSearch'', ''1'')] else []) @ [(''page'', decimal p)])) =
      \<lparr> q = qtext, page = p, semanticSearch = sem \<rparr>"
      by (simp add: inv)
    moreover have "max 1 p = p"
      using True by simp
    ultimately show ?thesis
      unfolding request_params_buildHref str using True by simp
  next
    case False
    have d1: "all_digits (decimal 1)" "1 \<le> parseInt (decimal 1)"
      using decimal_props [of 1] all_digits_decimal [of 1] by simp_all
    from parseParams_round [OF assms(1) d1, of sem False]
    have "parseParams (search_params
       ((case qtext of None \<Rightarrow> [] | Some s \<Rightarrow> if s = [] then [] else [(''query'', s)]) @
        (if sem then [(''semanticSearch'', ''1'')] else []))) =
      \<lparr> q = qtext, page = 1, semanticSearch = sem \<rparr>"
      by simp
    moreover have "max 1 p = 1"
      using False by simp
    ultimately show ?thesis
      unfolding request_params_buildHref str using False by simp
  qed
qed

lemma buildHref_example:
  "buildHref 2 (Some ''loft'') True = ''/?query=loft&semanticSearch=1&page=2'' \<and>
   parseParams (request_params (buildHref 2 (Some ''loft'') True)) =
     \<lparr> q = Some ''loft'', page = 2, semanticSearch = True \<rparr>"
proof -
  have small: "(2::nat) < 2 ^ 53" by simp
  have present: "Some ''loft'' = None \<or> (\<exists>s. Some ''loft'' = Some s \<and> s \<noteq> [] \<and> trim s = s)"
    by (simp add: trim_loft)
  have d2: "String 2 = ''2''"
    by (simp add: String_small decimal_base)
  have enc: "toString [(''query'', ''loft''), (''semanticSearch'', ''1''), (''page'', ''2'')] =
      ''query=loft&semanticSearch=1&page=2''"
    by (simp add: toString_def form_encode_def encode_byte_def unreserved_def)
  have href: "buildHref 2 (Some ''loft'') True = ''/?query=loft&semanticSearch=1&page=2''"
    unfolding buildHref_params d2 Let_def by (simp add: enc)
  have "parseParams (request_params (buildHref 2 (Some ''loft'') True)) =
      \<lparr> q = Some ''loft'', page = 2, semanticSearch = True \<rparr>"
    using buildHref_round_trip [OF present small, of True] by simp
  with href show ?thesis
    by (rule conjI)
qed


end
